theory Spec2Isabelle
  imports Main "HOL-Library.Word"
begin

unbundle bit_operations_syntax

section \<open>The typed-value wire codec of ntgo (entry.go)\<close>

subsection \<open>Bytes, readers and errors\<close>

type_synonym byte = "8 word"

text \<open>
  An \<^verbatim>\<open>io.Reader\<close> is modelled by the bytes it has yet to deliver. Every
  decoder takes the reader and returns its result together with the reader as the call
  leaves it, on success and on failure alike.
\<close>

type_synonym reader = "byte list"

text \<open>
  The error values of entry.go (lines 31-42), the two end-of-stream errors of package
  \<^verbatim>\<open>io\<close>, and the errors that \<^verbatim>\<open>mergo\<close> can return.
\<close>

datatype error =
    ErrEOF
  | ErrUnexpectedEOF
  | ErrEntryTypeCastInvalid
  | ErrEntryCastInvalid
  | ErrEntryNoSuchType
  | ErrEntryDataInvalid
  | ErrArrayIndexOutOfBounds
  | ErrArrayOutOfSpace
  | ErrEntryFlagNoSuchType
  | ErrNilArguments
  | ErrDifferentArgumentsTypes
  | ErrNotSupported

type_synonym 'a decoded = "(error + 'a) \<times> reader"

text \<open>
  \<^verbatim>\<open>r.Read(buf)\<close> with a one-byte buffer, as \<^verbatim>\<open>DecodeEntryType\<close>,
  \<^verbatim>\<open>DecodeEntryFlag\<close> and \<^verbatim>\<open>DecodeEntryValueAndType\<close> call it: the next
  byte, or \<^verbatim>\<open>io.EOF\<close> at the end of the stream.
\<close>

definition Read1 :: "reader \<Rightarrow> byte decoded" where
  "Read1 r = (case r of [] \<Rightarrow> (Inl ErrEOF, []) | b # r' \<Rightarrow> (Inr b, r'))"

text \<open>
  \<^verbatim>\<open>io.ReadFull(r, buf)\<close> with \<^verbatim>\<open>len(buf) = n\<close>: exactly \<open>n\<close> bytes, or
  \<^verbatim>\<open>io.EOF\<close> when no byte could be read, or \<^verbatim>\<open>io.ErrUnexpectedEOF\<close> when the
  stream ends after some but not all of them (the bytes read so far are consumed). A buffer
  of length 0 is filled without reading.
\<close>

definition ReadFull :: "reader \<Rightarrow> nat \<Rightarrow> (byte list) decoded" where
  "ReadFull r n =
     (if n = 0 then (Inr [], r)
      else if r = [] then (Inl ErrEOF, [])
      else if length r < n then (Inl ErrUnexpectedEOF, [])
      else (Inr (take n r), drop n r))"

subsection \<open>The scalar structs\<close>

text \<open>
  \<^verbatim>\<open>ValueBoolean\<close>, \<^verbatim>\<open>ValueString\<close>, \<^verbatim>\<open>ValueDouble\<close> and \<^verbatim>\<open>ValueRaw\<close>
  are four structs with the same two fields, \<^verbatim>\<open>Value\<close> and \<^verbatim>\<open>RawValue\<close>; they
  differ in the type of \<^verbatim>\<open>Value\<close>. A Go \<^verbatim>\<open>string\<close> is a \<^typ>\<open>string\<close>. A
  \<^verbatim>\<open>float64\<close> is represented by its IEEE-754 bit pattern
  (\<^verbatim>\<open>math.Float64bits\<close>), a 64-bit word.
\<close>

record 'a scalar =
  Value :: 'a
  RawValue :: "byte list"

type_synonym ValueBoolean = "bool scalar"
type_synonym ValueString = "string scalar"
type_synonym ValueDouble = "(64 word) scalar"
type_synonym ValueRaw = "(byte list) scalar"

definition BoolFalse :: byte where "BoolFalse = 0"
definition BoolTrue :: byte where "BoolTrue = 1"

subsection \<open>Boolean\<close>

definition DecodeBoolean :: "reader \<Rightarrow> ValueBoolean decoded" where
  "DecodeBoolean r =
     (case ReadFull r 1 of
        (Inl readErr, r') \<Rightarrow> (Inl readErr, r')
      | (Inr val, r') \<Rightarrow>
          (if val ! 0 = BoolFalse then (Inr \<lparr>Value = False, RawValue = val\<rparr>, r')
           else if val ! 0 = BoolTrue then (Inr \<lparr>Value = True, RawValue = val\<rparr>, r')
           else (Inl ErrEntryDataInvalid, r')))"

definition BuildBoolean :: "bool \<Rightarrow> ValueBoolean" where
  "BuildBoolean v =
     (let rawValue = (if v then [BoolTrue] else [BoolFalse])
      in \<lparr>Value = v, RawValue = rawValue\<rparr>)"

subsection \<open>The helpers of the repository that entry.go calls\<close>

text \<open>
  Modelled from the spec: \<^verbatim>\<open>EncodeULEB128\<close>, which entry.go calls and does not define.
  Section 4.1: the encoding has 7 data bits per byte, least significant group first,
  with the continuation bit (0x80) set on all but the last byte, and it is minimal: it
  stops at the last non-zero group.
\<close>

function EncodeULEB128 :: "32 word \<Rightarrow> byte list" where
  "EncodeULEB128 n =
     (let b = (ucast (n AND 0x7F) :: byte); n' = drop_bit 7 n
      in if n' = 0 then [b] else (b OR 0x80) # EncodeULEB128 n')"
  by pat_completeness auto
termination
proof (relation "measure unat")
  show "wf (measure (unat :: 32 word \<Rightarrow> nat))" by simp
next
  fix n :: "32 word" and b :: byte and n' :: "32 word"
  assume n': "n' = drop_bit 7 n" and nz: "n' \<noteq> 0"
  have u: "unat n' = unat n div 128"
    by (simp add: n' drop_bit_eq_div unat_div)
  have "unat n' \<noteq> 0" using nz by (simp add: unat_eq_0)
  with u have "unat n' < unat n" by (simp add: div_less_dividend)
  then show "(n', n) \<in> measure unat" by simp
qed

declare EncodeULEB128.simps [simp del]

text \<open>
  Modelled from the spec: \<^verbatim>\<open>DecodeAndSaveULEB128\<close>, which entry.go calls and does not
  define. Section 4.1: it reads bytes until one has the continuation bit clear,
  accumulates the 7-bit groups least significant first into an unsigned 32-bit value
  (the source does not bound the number of groups: bits shifted beyond the 32nd are
  lost), and returns the value with the raw bytes consumed. When the stream ends before
  a terminating byte the underlying read failure, \<^verbatim>\<open>io.EOF\<close>, is returned.
\<close>

fun uleb_loop :: "32 word \<Rightarrow> nat \<Rightarrow> byte list \<Rightarrow> reader \<Rightarrow> (32 word \<times> byte list) decoded" where
  "uleb_loop result shift saved [] = (Inl ErrEOF, [])"
| "uleb_loop result shift saved (b # r) =
     (let result' = result OR push_bit shift (ucast (b AND 0x7F));
          saved' = saved @ [b]
      in if b AND 0x80 = 0 then (Inr (result', saved'), r)
         else uleb_loop result' (shift + 7) saved' r)"

definition DecodeAndSaveULEB128 :: "reader \<Rightarrow> (32 word \<times> byte list) decoded" where
  "DecodeAndSaveULEB128 r = uleb_loop 0 0 [] r"

text \<open>
  Modelled from the spec: what section 4.1 calls an unsigned-LEB128 encoding, for the
  claim about \<^verbatim>\<open>EncodeULEB128\<close>. A byte sequence is well formed when the continuation
  bit is set on all bytes but the last and clear on the last; its value is the sum of its
  7-bit groups, least significant group first.
\<close>

fun uleb_wellformed :: "byte list \<Rightarrow> bool" where
  "uleb_wellformed [] = False"
| "uleb_wellformed [b] = (b AND 0x80 = 0)"
| "uleb_wellformed (b # bs) = (b AND 0x80 \<noteq> 0 \<and> uleb_wellformed bs)"

fun uleb_value :: "byte list \<Rightarrow> nat" where
  "uleb_value [] = 0"
| "uleb_value (b # bs) = unat (b AND 0x7F) + 128 * uleb_value bs"

text \<open>
  Modelled from the spec: \<^verbatim>\<open>BytesToFloat64\<close> and \<^verbatim>\<open>Float64ToBytes\<close>, which
  entry.go calls and does not define. Sections 4.2 and 6: the wire form of a double is
  exactly 8 bytes, the IEEE-754 bit pattern in big-endian order.
\<close>

definition Float64ToBytes :: "64 word \<Rightarrow> byte list" where
  "Float64ToBytes v =
     [ucast (drop_bit 56 v), ucast (drop_bit 48 v), ucast (drop_bit 40 v),
      ucast (drop_bit 32 v), ucast (drop_bit 24 v), ucast (drop_bit 16 v),
      ucast (drop_bit 8 v), ucast v]"

fun BytesToFloat64_loop :: "64 word \<Rightarrow> byte list \<Rightarrow> 64 word" where
  "BytesToFloat64_loop acc [] = acc"
| "BytesToFloat64_loop acc (b # bs) = BytesToFloat64_loop (push_bit 8 acc OR ucast b) bs"

definition BytesToFloat64 :: "byte list \<Rightarrow> 64 word" where
  "BytesToFloat64 data = BytesToFloat64_loop 0 data"

text \<open>
  The conversions \<^verbatim>\<open>[]byte(s)\<close> and \<^verbatim>\<open>string(b)\<close> of the Go language: a string
  is its bytes, and neither conversion validates or changes them.
\<close>

definition bytes_of_string :: "string \<Rightarrow> byte list" where
  "bytes_of_string s = map (\<lambda>c. word_of_nat (of_char c)) s"

definition string_of_bytes :: "byte list \<Rightarrow> string" where
  "string_of_bytes bs = map (\<lambda>b. char_of (unat b)) bs"

subsection \<open>The imported library mergo\<close>

text \<open>
  entry.go updates a value in place with \<^verbatim>\<open>mergo.MergeWithOverwrite(dst, src)\<close> of the
  imported package \<^verbatim>\<open>github.com/imdario/mergo\<close> (line 5), a third-party library whose
  source is not part of the repository. The model follows the library's functions
  \<^verbatim>\<open>isEmptyValue\<close>, \<^verbatim>\<open>deepMerge\<close>, \<^verbatim>\<open>resolveValues\<close> and \<^verbatim>\<open>merge\<close>, and its
  documented contract: the attributes of \<open>dst\<close> are overridden by the non-empty attributes
  of \<open>src\<close>. The package works on \<^verbatim>\<open>reflect.Value\<close>s; the values that entry.go hands
  to it are booleans, float64s, strings, byte slices, structs of these with exported
  fields, and pointers. Maps, interfaces, nil pointers and the table of visited addresses
  do not occur in these calls and are left out.
\<close>

datatype rvalue =
    RBool bool
  | RFloat64 "64 word"
  | RString string
  | RSlice "byte list"
  | RStruct string "rvalue list"
  | RPtr rvalue

datatype rkind = Bool | Float64 | String | Slice | Struct | Ptr

fun Kind :: "rvalue \<Rightarrow> rkind" where
  "Kind (RBool b) = Bool"
| "Kind (RFloat64 f) = Float64"
| "Kind (RString s) = String"
| "Kind (RSlice s) = Slice"
| "Kind (RStruct name fs) = Struct"
| "Kind (RPtr p) = Ptr"

datatype rtype = TBool | TFloat64 | TString | TSlice | TStruct string | TPtr rtype

fun Type :: "rvalue \<Rightarrow> rtype" where
  "Type (RBool b) = TBool"
| "Type (RFloat64 f) = TFloat64"
| "Type (RString s) = TString"
| "Type (RSlice s) = TSlice"
| "Type (RStruct name fs) = TStruct name"
| "Type (RPtr p) = TPtr (Type p)"

text \<open>
  \<^verbatim>\<open>isEmptyValue\<close>: a string or slice of length 0, the boolean false, a float equal
  to zero (the bit patterns of +0 and -0) and a nil pointer are empty. The pointers of
  this model are never nil.
\<close>

fun isEmptyValue :: "rvalue \<Rightarrow> bool" where
  "isEmptyValue (RString s) = (length s = 0)"
| "isEmptyValue (RSlice s) = (length s = 0)"
| "isEmptyValue (RBool b) = (\<not> b)"
| "isEmptyValue (RFloat64 f) = (f = 0 \<or> f = 0x8000000000000000)"
| "isEmptyValue (RPtr p) = False"
| "isEmptyValue (RStruct name fs) = False"

text \<open>
  \<^verbatim>\<open>deepMerge(dst, src, visited, depth, overwrite)\<close> with \<^verbatim>\<open>overwrite = true\<close>,
  returning the content of \<open>dst\<close> afterwards. A struct is merged field by field; for two
  non-nil pointers the pointed-to values are merged; every other value of \<open>dst\<close> is set
  to \<open>src\<close> when \<open>src\<close> is not empty, and is left as it is when \<open>src\<close> is empty.
\<close>

fun deepMerge :: "rvalue \<Rightarrow> rvalue \<Rightarrow> rvalue"
  and deepMergeFields :: "rvalue list \<Rightarrow> rvalue list \<Rightarrow> rvalue list" where
  "deepMerge (RStruct name dfields) (RStruct name' sfields) =
     RStruct name (deepMergeFields dfields sfields)"
| "deepMerge (RPtr d) (RPtr s) = RPtr (deepMerge d s)"
| "deepMerge dst src = (if \<not> isEmptyValue src then src else dst)"
| "deepMergeFields (d # ds) (s # ss) = deepMerge d s # deepMergeFields ds ss"
| "deepMergeFields ds ss = ds"

text \<open>
  \<^verbatim>\<open>MergeWithOverwrite(dst, src)\<close>. The first argument of the model is the value that
  the pointer \<open>dst\<close> points to (\<^verbatim>\<open>reflect.ValueOf(dst).Elem()\<close>); the result is the
  error returned and the content of that value afterwards. \<^verbatim>\<open>resolveValues\<close> refuses
  a \<open>dst\<close> that does not point to a struct (or a map), and dereferences \<open>src\<close> when it
  is a pointer; \<^verbatim>\<open>merge\<close> refuses arguments of different types.
\<close>

definition MergeWithOverwrite :: "rvalue \<Rightarrow> rvalue \<Rightarrow> error option \<times> rvalue" where
  "MergeWithOverwrite vDst src =
     (if Kind vDst \<noteq> Struct then (Some ErrNotSupported, vDst)
      else let vSrc = (case src of RPtr s \<Rightarrow> s | _ \<Rightarrow> src)
           in if Type vDst \<noteq> Type vSrc then (Some ErrDifferentArgumentsTypes, vDst)
              else (None, deepMerge vDst vSrc))"

subsection \<open>In-place updates of the scalar structs\<close>

text \<open>
  What \<^verbatim>\<open>reflect.ValueOf\<close> sees of each struct, and the struct as the fields set
  through reflection leave it.
\<close>

definition reflect_ValueBoolean :: "ValueBoolean \<Rightarrow> rvalue" where
  "reflect_ValueBoolean e = RStruct ''ValueBoolean'' [RBool (Value e), RSlice (RawValue e)]"

definition reflect_ValueString :: "ValueString \<Rightarrow> rvalue" where
  "reflect_ValueString e = RStruct ''ValueString'' [RString (Value e), RSlice (RawValue e)]"

definition reflect_ValueDouble :: "ValueDouble \<Rightarrow> rvalue" where
  "reflect_ValueDouble e = RStruct ''ValueDouble'' [RFloat64 (Value e), RSlice (RawValue e)]"

definition reflect_ValueRaw :: "ValueRaw \<Rightarrow> rvalue" where
  "reflect_ValueRaw e = RStruct ''ValueRaw'' [RSlice (Value e), RSlice (RawValue e)]"

definition assign_ValueBoolean :: "rvalue \<Rightarrow> ValueBoolean \<Rightarrow> ValueBoolean" where
  "assign_ValueBoolean rv e =
     (case rv of RStruct name [RBool v, RSlice raw] \<Rightarrow> \<lparr>Value = v, RawValue = raw\<rparr> | _ \<Rightarrow> e)"

definition assign_ValueString :: "rvalue \<Rightarrow> ValueString \<Rightarrow> ValueString" where
  "assign_ValueString rv e =
     (case rv of RStruct name [RString v, RSlice raw] \<Rightarrow> \<lparr>Value = v, RawValue = raw\<rparr> | _ \<Rightarrow> e)"

definition assign_ValueDouble :: "rvalue \<Rightarrow> ValueDouble \<Rightarrow> ValueDouble" where
  "assign_ValueDouble rv e =
     (case rv of RStruct name [RFloat64 v, RSlice raw] \<Rightarrow> \<lparr>Value = v, RawValue = raw\<rparr> | _ \<Rightarrow> e)"

definition assign_ValueRaw :: "rvalue \<Rightarrow> ValueRaw \<Rightarrow> ValueRaw" where
  "assign_ValueRaw rv e =
     (case rv of RStruct name [RSlice v, RSlice raw] \<Rightarrow> \<lparr>Value = v, RawValue = raw\<rparr> | _ \<Rightarrow> e)"

text \<open>
  A method that mutates its receiver returns the error (\<open>None\<close> for \<^verbatim>\<open>nil\<close>) and the
  receiver as the call leaves it; \<^verbatim>\<open>UpdateRaw\<close> also returns the reader.
\<close>

type_synonym 'a updated = "error option \<times> 'a"

definition ValueBoolean_UpdateRaw :: "ValueBoolean \<Rightarrow> reader \<Rightarrow> ValueBoolean updated \<times> reader" where
  "ValueBoolean_UpdateRaw entry r =
     (case DecodeBoolean r of
        (Inl entryErr, r') \<Rightarrow> ((Some entryErr, entry), r')
      | (Inr newEntry, r') \<Rightarrow>
          (case MergeWithOverwrite (reflect_ValueBoolean entry) (reflect_ValueBoolean newEntry) of
             (err, rv) \<Rightarrow> ((err, assign_ValueBoolean rv entry), r')))"

definition ValueBoolean_GetRaw :: "ValueBoolean \<Rightarrow> byte list" where
  "ValueBoolean_GetRaw entry = RawValue entry"

definition ValueBoolean_UpdateValue :: "ValueBoolean \<Rightarrow> bool \<Rightarrow> ValueBoolean updated" where
  "ValueBoolean_UpdateValue entry v =
     (case MergeWithOverwrite (reflect_ValueBoolean entry) (reflect_ValueBoolean (BuildBoolean v)) of
        (err, rv) \<Rightarrow> (err, assign_ValueBoolean rv entry))"

subsection \<open>String\<close>

definition DecodeString :: "reader \<Rightarrow> ValueString decoded" where
  "DecodeString r =
     (case DecodeAndSaveULEB128 r of
        (Inl ulebErr, r') \<Rightarrow> (Inl ulebErr, r')
      | (Inr (uleb, ulebData), r') \<Rightarrow>
          (case ReadFull r' (unat uleb) of
             (Inl readErr, r'') \<Rightarrow> (Inl readErr, r'')
           | (Inr data, r'') \<Rightarrow>
               (Inr \<lparr>Value = string_of_bytes data, RawValue = ulebData @ data\<rparr>, r'')))"

definition BuildString :: "string \<Rightarrow> ValueString" where
  "BuildString v =
     (let stringBytes = bytes_of_string v;
          rawValue = EncodeULEB128 (word_of_nat (length stringBytes)) @ stringBytes
      in \<lparr>Value = v, RawValue = rawValue\<rparr>)"

definition ValueString_UpdateRaw :: "ValueString \<Rightarrow> reader \<Rightarrow> ValueString updated \<times> reader" where
  "ValueString_UpdateRaw entry r =
     (case DecodeString r of
        (Inl newErr, r') \<Rightarrow> ((Some newErr, entry), r')
      | (Inr newEntry, r') \<Rightarrow>
          (case MergeWithOverwrite (reflect_ValueString entry) (reflect_ValueString newEntry) of
             (err, rv) \<Rightarrow> ((err, assign_ValueString rv entry), r')))"

definition ValueString_GetRaw :: "ValueString \<Rightarrow> byte list" where
  "ValueString_GetRaw entry = RawValue entry"

definition ValueString_UpdateValue :: "ValueString \<Rightarrow> string \<Rightarrow> ValueString updated" where
  "ValueString_UpdateValue entry v =
     (case MergeWithOverwrite (reflect_ValueString entry) (reflect_ValueString (BuildString v)) of
        (err, rv) \<Rightarrow> (err, assign_ValueString rv entry))"

subsection \<open>Double\<close>

definition DecodeDouble :: "reader \<Rightarrow> ValueDouble decoded" where
  "DecodeDouble r =
     (case ReadFull r 8 of
        (Inl readErr, r') \<Rightarrow> (Inl readErr, r')
      | (Inr data, r') \<Rightarrow> (Inr \<lparr>Value = BytesToFloat64 data, RawValue = data\<rparr>, r'))"

definition BuildDouble :: "64 word \<Rightarrow> ValueDouble" where
  "BuildDouble v = \<lparr>Value = v, RawValue = Float64ToBytes v\<rparr>"

definition ValueDouble_UpdateRaw :: "ValueDouble \<Rightarrow> reader \<Rightarrow> ValueDouble updated \<times> reader" where
  "ValueDouble_UpdateRaw entry r =
     (case DecodeDouble r of
        (Inl newErr, r') \<Rightarrow> ((Some newErr, entry), r')
      | (Inr newEntry, r') \<Rightarrow>
          (case MergeWithOverwrite (reflect_ValueDouble entry) (reflect_ValueDouble newEntry) of
             (err, rv) \<Rightarrow> ((err, assign_ValueDouble rv entry), r')))"

definition ValueDouble_GetRaw :: "ValueDouble \<Rightarrow> byte list" where
  "ValueDouble_GetRaw entry = RawValue entry"

definition ValueDouble_UpdateValue :: "ValueDouble \<Rightarrow> 64 word \<Rightarrow> ValueDouble updated" where
  "ValueDouble_UpdateValue entry v =
     (case MergeWithOverwrite (reflect_ValueDouble entry) (reflect_ValueDouble (BuildDouble v)) of
        (err, rv) \<Rightarrow> (err, assign_ValueDouble rv entry))"

subsection \<open>Raw\<close>

definition DecodeRaw :: "reader \<Rightarrow> ValueRaw decoded" where
  "DecodeRaw r =
     (case DecodeAndSaveULEB128 r of
        (Inl ulebErr, r') \<Rightarrow> (Inl ulebErr, r')
      | (Inr (uleb, ulebData), r') \<Rightarrow>
          (case ReadFull r' (unat uleb) of
             (Inl readErr, r'') \<Rightarrow> (Inl readErr, r'')
           | (Inr data, r'') \<Rightarrow> (Inr \<lparr>Value = data, RawValue = ulebData @ data\<rparr>, r'')))"

definition BuildRaw :: "byte list \<Rightarrow> ValueRaw" where
  "BuildRaw v = \<lparr>Value = v, RawValue = EncodeULEB128 (word_of_nat (length v)) @ v\<rparr>"

definition ValueRaw_UpdateRaw :: "ValueRaw \<Rightarrow> reader \<Rightarrow> ValueRaw updated \<times> reader" where
  "ValueRaw_UpdateRaw entry r =
     (case DecodeRaw r of
        (Inl newErr, r') \<Rightarrow> ((Some newErr, entry), r')
      | (Inr newEntry, r') \<Rightarrow>
          (case MergeWithOverwrite (reflect_ValueRaw entry) (reflect_ValueRaw newEntry) of
             (err, rv) \<Rightarrow> ((err, assign_ValueRaw rv entry), r')))"

definition ValueRaw_GetRaw :: "ValueRaw \<Rightarrow> byte list" where
  "ValueRaw_GetRaw entry = RawValue entry"

definition ValueRaw_UpdateValue :: "ValueRaw \<Rightarrow> byte list \<Rightarrow> ValueRaw updated" where
  "ValueRaw_UpdateValue entry v =
     (case MergeWithOverwrite (reflect_ValueRaw entry) (reflect_ValueRaw (BuildRaw v)) of
        (err, rv) \<Rightarrow> (err, assign_ValueRaw rv entry))"

subsection \<open>Arrays\<close>

text \<open>
  \<^verbatim>\<open>ValueBooleanArray\<close>, \<^verbatim>\<open>ValueDoubleArray\<close> and \<^verbatim>\<open>ValueStringArray\<close> are
  structs with the one field \<^verbatim>\<open>elements\<close>, a slice of pointers to scalar structs. The
  model keeps the pointed-to structs in the list, in the order of the slice: it describes
  arrays whose element pointers are distinct and not nil, as \<^verbatim>\<open>Decode\<close> makes them.
\<close>

record 'a array =
  elements :: "'a scalar list"

type_synonym ValueBooleanArray = "bool array"
type_synonym ValueDoubleArray = "(64 word) array"
type_synonym ValueStringArray = "string array"

text \<open>
  The interface \<^verbatim>\<open>EntryValue\<close>: a value together with its dynamic type, one
  constructor for each pointer type that implements the interface. A type assertion
  \<^verbatim>\<open>entry.(*ValueBoolean)\<close> succeeds on the constructor of that type only.
\<close>

datatype EntryValue =
    P_ValueBoolean ValueBoolean
  | P_ValueDouble ValueDouble
  | P_ValueString ValueString
  | P_ValueRaw ValueRaw
  | P_ValueBooleanArray ValueBooleanArray
  | P_ValueDoubleArray ValueDoubleArray
  | P_ValueStringArray ValueStringArray

text \<open>The conversion \<^verbatim>\<open>uint8(len(array.elements))\<close>: the length modulo 256.\<close>

definition uint8 :: "nat \<Rightarrow> byte" where
  "uint8 n = word_of_nat n"

text \<open>
  The loop of the three array decoders,
  \<^verbatim>\<open>for i := uint8(0); i < index; i++ { v, err := Decode(r); ...; elements[i] = v }\<close>,
  for an element decoder \<open>dec\<close>. The slice is made with \<open>index\<close> nil slots and slot \<open>i\<close> is
  filled in round \<open>i\<close>; the model holds the slots filled so far. A failing element decode
  returns its error at once.
\<close>

function decode_elements ::
  "(reader \<Rightarrow> 'a decoded) \<Rightarrow> byte \<Rightarrow> byte \<Rightarrow> 'a list \<Rightarrow> reader \<Rightarrow> ('a list) decoded" where
  "decode_elements dec index i elems r =
     (if i < index then
        (case dec r of
           (Inl decodeErr, r') \<Rightarrow> (Inl decodeErr, r')
         | (Inr v, r') \<Rightarrow> decode_elements dec index (i + 1) (elems @ [v]) r')
      else (Inr elems, r))"
  by pat_completeness auto
termination
proof (relation "measure (\<lambda>(dec, index, i, elems, r). unat index - unat i)", goal_cases)
  case 1
  show ?case by simp
next
  case (2 dec index i elems r)
  from \<open>i < index\<close> have lt: "unat i < unat index" by (simp add: word_less_nat_alt)
  moreover have "unat index < 256" using unsigned_less [of index, where ?'a = nat] by simp
  ultimately have "unat (i + 1) = Suc (unat i)" by (simp add: unat_word_ariths)
  with lt show ?case by simp
qed

declare decode_elements.simps [simp del]

definition decode_array :: "(reader \<Rightarrow> ('a scalar) decoded) \<Rightarrow> reader \<Rightarrow> ('a array) decoded" where
  "decode_array dec r =
     (case ReadFull r 1 of
        (Inl readErr, r') \<Rightarrow> (Inl readErr, r')
      | (Inr indexData, r') \<Rightarrow>
          (let index = indexData ! 0
           in case decode_elements dec index 0 [] r' of
                (Inl decodeErr, r'') \<Rightarrow> (Inl decodeErr, r'')
              | (Inr elems, r'') \<Rightarrow> (Inr \<lparr>elements = elems\<rparr>, r'')))"

text \<open>
  The loop of the three \<^verbatim>\<open>GetRaw\<close> methods,
  \<^verbatim>\<open>for ; i < uint8(len(array.elements)); i++ { data = append(data, array.elements[i].RawValue...) }\<close>.
\<close>

function GetRaw_loop :: "'a scalar list \<Rightarrow> byte \<Rightarrow> byte list \<Rightarrow> byte list" where
  "GetRaw_loop elems i data =
     (if i < uint8 (length elems)
      then GetRaw_loop elems (i + 1) (data @ RawValue (elems ! unat i))
      else data)"
  by pat_completeness auto
termination
proof (relation "measure (\<lambda>(elems, i, data). unat (uint8 (length elems)) - unat i)", goal_cases)
  case 1
  show ?case by simp
next
  case (2 elems i data)
  let ?n = "uint8 (length elems)"
  from \<open>i < ?n\<close> have lt: "unat i < unat ?n" by (simp add: word_less_nat_alt)
  moreover have "unat ?n < 256" using unsigned_less [of ?n, where ?'a = nat] by simp
  ultimately have "unat (i + 1) = Suc (unat i)" by (simp add: unat_word_ariths)
  with lt show ?case by simp
qed

declare GetRaw_loop.simps [simp del]

definition array_GetRaw :: "'a array \<Rightarrow> byte list" where
  "array_GetRaw array = GetRaw_loop (elements array) 0 [uint8 (length (elements array))]"

text \<open>
  \<^verbatim>\<open>BuildBooleanArray\<close>, \<^verbatim>\<open>BuildDoubleArray\<close>, \<^verbatim>\<open>BuildStringArray\<close>: the first
  255 values at most.
\<close>

definition build_array :: "'a scalar list \<Rightarrow> 'a array" where
  "build_array values =
     (let index = (if length values > 255 then 255 else uint8 (length values))
      in \<lparr>elements = take (unat index) values\<rparr>)"

subsubsection \<open>BooleanArray\<close>

definition DecodeBooleanArray :: "reader \<Rightarrow> ValueBooleanArray decoded" where
  "DecodeBooleanArray r = decode_array DecodeBoolean r"

definition BuildBooleanArray :: "ValueBoolean list \<Rightarrow> ValueBooleanArray" where
  "BuildBooleanArray values = build_array values"

definition ValueBooleanArray_Get :: "ValueBooleanArray \<Rightarrow> byte \<Rightarrow> error + EntryValue" where
  "ValueBooleanArray_Get array index =
     (if index \<ge> uint8 (length (elements array)) then Inl ErrArrayIndexOutOfBounds
      else Inr (P_ValueBoolean (elements array ! unat index)))"

definition ValueBooleanArray_Update ::
  "ValueBooleanArray \<Rightarrow> byte \<Rightarrow> EntryValue \<Rightarrow> ValueBooleanArray updated" where
  "ValueBooleanArray_Update array index entry =
     (case entry of
        P_ValueBoolean boolean \<Rightarrow>
          (if index \<ge> uint8 (length (elements array)) then (Some ErrArrayIndexOutOfBounds, array)
           else let element = elements array ! unat index
                in case MergeWithOverwrite (reflect_ValueBoolean element) (reflect_ValueBoolean boolean) of
                     (err, rv) \<Rightarrow>
                       (err, array\<lparr>elements :=
                               (elements array)[unat index := assign_ValueBoolean rv element]\<rparr>))
      | _ \<Rightarrow> (Some ErrEntryCastInvalid, array))"

definition ValueBooleanArray_Add :: "ValueBooleanArray \<Rightarrow> EntryValue \<Rightarrow> ValueBooleanArray updated" where
  "ValueBooleanArray_Add array entry =
     (case entry of
        P_ValueBoolean boolean \<Rightarrow>
          (if length (elements array) > 255 then (Some ErrArrayOutOfSpace, array)
           else (None, array\<lparr>elements := elements array @ [boolean]\<rparr>))
      | _ \<Rightarrow> (Some ErrEntryCastInvalid, array))"

definition ValueBooleanArray_GetRaw :: "ValueBooleanArray \<Rightarrow> byte list" where
  "ValueBooleanArray_GetRaw array = array_GetRaw array"

subsubsection \<open>DoubleArray\<close>

definition DecodeDoubleArray :: "reader \<Rightarrow> ValueDoubleArray decoded" where
  "DecodeDoubleArray r = decode_array DecodeDouble r"

definition BuildDoubleArray :: "ValueDouble list \<Rightarrow> ValueDoubleArray" where
  "BuildDoubleArray values = build_array values"

definition ValueDoubleArray_Get :: "ValueDoubleArray \<Rightarrow> byte \<Rightarrow> error + EntryValue" where
  "ValueDoubleArray_Get array index =
     (if index \<ge> uint8 (length (elements array)) then Inl ErrArrayIndexOutOfBounds
      else Inr (P_ValueDouble (elements array ! unat index)))"

text \<open>
  Line 431 passes \<^verbatim>\<open>&array.elements[index]\<close>, the address of the slot, and the
  pointer \<^verbatim>\<open>double\<close> itself, where the other two arrays pass the slot's pointer and the
  pointed-to struct: here \<open>dst\<close> points to a pointer.
\<close>

definition ValueDoubleArray_Update ::
  "ValueDoubleArray \<Rightarrow> byte \<Rightarrow> EntryValue \<Rightarrow> ValueDoubleArray updated" where
  "ValueDoubleArray_Update array index entry =
     (case entry of
        P_ValueDouble double \<Rightarrow>
          (if index \<ge> uint8 (length (elements array)) then (Some ErrArrayIndexOutOfBounds, array)
           else let element = elements array ! unat index
                in case MergeWithOverwrite (RPtr (reflect_ValueDouble element))
                          (RPtr (reflect_ValueDouble double)) of
                     (err, slot) \<Rightarrow>
                       (err, array\<lparr>elements :=
                               (elements array)[unat index :=
                                  (case slot of RPtr rv \<Rightarrow> assign_ValueDouble rv element
                                   | _ \<Rightarrow> element)]\<rparr>))
      | _ \<Rightarrow> (Some ErrEntryCastInvalid, array))"

definition ValueDoubleArray_Add :: "ValueDoubleArray \<Rightarrow> EntryValue \<Rightarrow> ValueDoubleArray updated" where
  "ValueDoubleArray_Add array entry =
     (case entry of
        P_ValueDouble double \<Rightarrow>
          (if length (elements array) > 255 then (Some ErrArrayOutOfSpace, array)
           else (None, array\<lparr>elements := elements array @ [double]\<rparr>))
      | _ \<Rightarrow> (Some ErrEntryCastInvalid, array))"

definition ValueDoubleArray_GetRaw :: "ValueDoubleArray \<Rightarrow> byte list" where
  "ValueDoubleArray_GetRaw array = array_GetRaw array"

subsubsection \<open>StringArray\<close>

definition DecodeStringArray :: "reader \<Rightarrow> ValueStringArray decoded" where
  "DecodeStringArray r = decode_array DecodeString r"

definition BuildStringArray :: "ValueString list \<Rightarrow> ValueStringArray" where
  "BuildStringArray values = build_array values"

definition ValueStringArray_Get :: "ValueStringArray \<Rightarrow> byte \<Rightarrow> error + EntryValue" where
  "ValueStringArray_Get array index =
     (if index \<ge> uint8 (length (elements array)) then Inl ErrArrayIndexOutOfBounds
      else Inr (P_ValueString (elements array ! unat index)))"

definition ValueStringArray_Update ::
  "ValueStringArray \<Rightarrow> byte \<Rightarrow> EntryValue \<Rightarrow> ValueStringArray updated" where
  "ValueStringArray_Update array index entry =
     (case entry of
        P_ValueString str \<Rightarrow>
          (if index \<ge> uint8 (length (elements array)) then (Some ErrArrayIndexOutOfBounds, array)
           else let element = elements array ! unat index
                in case MergeWithOverwrite (reflect_ValueString element) (reflect_ValueString str) of
                     (err, rv) \<Rightarrow>
                       (err, array\<lparr>elements :=
                               (elements array)[unat index := assign_ValueString rv element]\<rparr>))
      | _ \<Rightarrow> (Some ErrEntryCastInvalid, array))"

definition ValueStringArray_Add :: "ValueStringArray \<Rightarrow> EntryValue \<Rightarrow> ValueStringArray updated" where
  "ValueStringArray_Add array entry =
     (case entry of
        P_ValueString str \<Rightarrow>
          (if length (elements array) > 255 then (Some ErrArrayOutOfSpace, array)
           else (None, array\<lparr>elements := elements array @ [str]\<rparr>))
      | _ \<Rightarrow> (Some ErrEntryCastInvalid, array))"

definition ValueStringArray_GetRaw :: "ValueStringArray \<Rightarrow> byte list" where
  "ValueStringArray_GetRaw array = array_GetRaw array"

subsection \<open>Entry types, flags and the dispatcher\<close>

type_synonym EntryType = byte
type_synonym EntryFlag = byte

definition EntryTypeBoolean :: EntryType where "EntryTypeBoolean = 0x00"
definition EntryTypeDouble :: EntryType where "EntryTypeDouble = 0x01"
definition EntryTypeString :: EntryType where "EntryTypeString = 0x02"
definition EntryTypeRawData :: EntryType where "EntryTypeRawData = 0x03"
definition EntryTypeBooleanArr :: EntryType where "EntryTypeBooleanArr = 0x10"
definition EntryTypeDoubleArr :: EntryType where "EntryTypeDoubleArr = 0x11"
definition EntryTypeStringArr :: EntryType where "EntryTypeStringArr = 0x12"
definition EntryTypeRPCDef :: EntryType where "EntryTypeRPCDef = 0x20"
definition EntryTypeUndef :: EntryType where "EntryTypeUndef = 0xFF"

definition EntryFlagTemporary :: EntryFlag where "EntryFlagTemporary = 0x00"
definition EntryFlagPersistent :: EntryFlag where "EntryFlagPersistent = 0x01"
definition EntryFlagReserved :: EntryFlag where "EntryFlagReserved = 0xFE"
definition EntryFlagUndef :: EntryFlag where "EntryFlagUndef = 0xFF"

text \<open>
  \<^verbatim>\<open>DecodeEntryFlag\<close> and \<^verbatim>\<open>DecodeEntryType\<close> return a flag or type together with the
  error, also when the error is not nil.
\<close>

definition DecodeEntryFlag :: "reader \<Rightarrow> (EntryFlag \<times> error option) \<times> reader" where
  "DecodeEntryFlag r =
     (case Read1 r of
        (Inl flagErr, r') \<Rightarrow> ((EntryFlagUndef, Some flagErr), r')
      | (Inr flag, r') \<Rightarrow>
          (if flag = EntryFlagPersistent \<or> flag = EntryFlagTemporary \<or> flag = EntryFlagReserved
           then ((flag, None), r')
           else ((EntryFlagUndef, Some ErrEntryFlagNoSuchType), r')))"

definition DecodeEntryType :: "reader \<Rightarrow> (EntryType \<times> error option) \<times> reader" where
  "DecodeEntryType r =
     (case Read1 r of
        (Inl readErr, r') \<Rightarrow> ((EntryTypeUndef, Some readErr), r')
      | (Inr rawType, r') \<Rightarrow> ((rawType, None), r'))"

text \<open>
  A decoder's result \<^verbatim>\<open>(*T, error)\<close> returned as \<^verbatim>\<open>(EntryValue, error)\<close>, as each
  branch of \<^verbatim>\<open>DecodeEntryValue\<close> does.
\<close>

definition as_EntryValue :: "('a \<Rightarrow> EntryValue) \<Rightarrow> 'a decoded \<Rightarrow> EntryValue decoded" where
  "as_EntryValue wrap d = (case d of (Inl e, r') \<Rightarrow> (Inl e, r') | (Inr v, r') \<Rightarrow> (Inr (wrap v), r'))"

definition DecodeEntryValue :: "reader \<Rightarrow> EntryType \<Rightarrow> EntryValue decoded" where
  "DecodeEntryValue r entryType =
     (if entryType = EntryTypeBoolean then as_EntryValue P_ValueBoolean (DecodeBoolean r)
      else if entryType = EntryTypeDouble then as_EntryValue P_ValueDouble (DecodeDouble r)
      else if entryType = EntryTypeString then as_EntryValue P_ValueString (DecodeString r)
      else if entryType = EntryTypeRawData then as_EntryValue P_ValueRaw (DecodeRaw r)
      else if entryType = EntryTypeBooleanArr then as_EntryValue P_ValueBooleanArray (DecodeBooleanArray r)
      else if entryType = EntryTypeDoubleArr then as_EntryValue P_ValueDoubleArray (DecodeDoubleArray r)
      else if entryType = EntryTypeStringArr then as_EntryValue P_ValueStringArray (DecodeStringArray r)
      else (Inl ErrEntryNoSuchType, r))"

text \<open>
  \<^verbatim>\<open>DecodeEntryValueAndType\<close> returns the value (\<open>None\<close> when none was decoded), the
  type tag it read (\<^verbatim>\<open>EntryTypeUndef\<close> when it could not read one) and the error.
\<close>

definition DecodeEntryValueAndType ::
  "reader \<Rightarrow> (EntryValue option \<times> EntryType \<times> error option) \<times> reader" where
  "DecodeEntryValueAndType r =
     (case Read1 r of
        (Inl readErr, r') \<Rightarrow> ((None, EntryTypeUndef, Some readErr), r')
      | (Inr entryType, r') \<Rightarrow>
          (case DecodeEntryValue r' entryType of
             (Inl err, r'') \<Rightarrow> ((None, entryType, Some err), r'')
           | (Inr v, r'') \<Rightarrow> ((Some v, entryType, None), r'')))"

text \<open>\<^verbatim>\<open>GetRaw\<close> through the interface \<^verbatim>\<open>EntryValue\<close>: the method of the dynamic type.\<close>

fun GetRaw :: "EntryValue \<Rightarrow> byte list" where
  "GetRaw (P_ValueBoolean e) = ValueBoolean_GetRaw e"
| "GetRaw (P_ValueDouble e) = ValueDouble_GetRaw e"
| "GetRaw (P_ValueString e) = ValueString_GetRaw e"
| "GetRaw (P_ValueRaw e) = ValueRaw_GetRaw e"
| "GetRaw (P_ValueBooleanArray a) = ValueBooleanArray_GetRaw a"
| "GetRaw (P_ValueDoubleArray a) = ValueDoubleArray_GetRaw a"
| "GetRaw (P_ValueStringArray a) = ValueStringArray_GetRaw a"

subsection \<open>Array decoding in the words of the specification\<close>

text \<open>
  Section 4.3 describes array decoding as: read the element count, then decode that many
  scalar values of the matching type in sequence; any element decode failure aborts the
  whole array decode. \<open>decode_seq dec n\<close> is that description for \<open>n\<close> elements, written
  by recursion on \<open>n\<close>; the loop \<open>decode_elements\<close> of the source is compared with it.
\<close>

fun decode_seq :: "(reader \<Rightarrow> 'a decoded) \<Rightarrow> nat \<Rightarrow> reader \<Rightarrow> ('a list) decoded" where
  "decode_seq dec 0 r = (Inr [], r)"
| "decode_seq dec (Suc n) r =
     (case dec r of
        (Inl e, r') \<Rightarrow> (Inl e, r')
      | (Inr v, r') \<Rightarrow>
          (case decode_seq dec n r' of
             (Inl e, r'') \<Rightarrow> (Inl e, r'')
           | (Inr vs, r'') \<Rightarrow> (Inr (v # vs), r'')))"

definition with_prefix :: "'a list \<Rightarrow> ('a list) decoded \<Rightarrow> ('a list) decoded" where
  "with_prefix elems d =
     (case d of (Inl e, r') \<Rightarrow> (Inl e, r') | (Inr vs, r') \<Rightarrow> (Inr (elems @ vs), r'))"

section \<open>Properties\<close>

subsection \<open>Byte counters\<close>

lemma byte_Suc:
  assumes "(i :: byte) < index"
  shows "unat (i + 1) = Suc (unat i)"
proof -
  have "unat i < unat index" using assms by (simp add: word_less_nat_alt)
  moreover have "unat index < 256"
    using unsigned_less [of index, where ?'a = nat] by simp
  ultimately have "unat i + 1 < 256" by simp
  then show ?thesis by (simp add: unat_word_ariths)
qed

subsection \<open>Readers\<close>

lemma ReadFull_1_Cons: "ReadFull (b # r) (Suc 0) = (Inr [b], r)"
  by (simp add: ReadFull_def)

lemma ReadFull_1_Nil: "ReadFull [] (Suc 0) = (Inl ErrEOF, [])"
  by (simp add: ReadFull_def)

subsection \<open>Decoding a boolean\<close>

text \<open>
  C5. \<^verbatim>\<open>DecodeBoolean\<close> reads exactly one byte, whatever its value: the reader is left
  at the byte after it. Byte 0x00 decodes to \<open>False\<close> and byte 0x01 to \<open>True\<close>, each value
  keeping that byte as its wire bytes; every other byte, 0x02 among them, fails with
  \<^verbatim>\<open>ErrEntryDataInvalid\<close> and yields no value.
\<close>

theorem DecodeBoolean_one_byte:
  "DecodeBoolean (b # r) =
     (if b = 0 then (Inr \<lparr>Value = False, RawValue = [0]\<rparr>, r)
      else if b = 1 then (Inr \<lparr>Value = True, RawValue = [1]\<rparr>, r)
      else (Inl ErrEntryDataInvalid, r))
   \<and> DecodeBoolean (2 # r) = (Inl ErrEntryDataInvalid, r)"
  by (simp add: DecodeBoolean_def ReadFull_1_Cons BoolFalse_def BoolTrue_def)

subsection \<open>Reflection round trip of a struct\<close>

lemma assign_reflect_ValueBoolean: "assign_ValueBoolean (reflect_ValueBoolean e) e' = e"
  by (simp add: assign_ValueBoolean_def reflect_ValueBoolean_def)

lemma assign_reflect_ValueString: "assign_ValueString (reflect_ValueString e) e' = e"
  by (simp add: assign_ValueString_def reflect_ValueString_def)

lemma assign_reflect_ValueDouble: "assign_ValueDouble (reflect_ValueDouble e) e' = e"
  by (simp add: assign_ValueDouble_def reflect_ValueDouble_def)

lemma assign_reflect_ValueRaw: "assign_ValueRaw (reflect_ValueRaw e) e' = e"
  by (simp add: assign_ValueRaw_def reflect_ValueRaw_def)

subsection \<open>Truncated streams\<close>

lemma DecodeBoolean_Nil: "DecodeBoolean [] = (Inl ErrEOF, [])"
  by (simp add: DecodeBoolean_def ReadFull_def)

lemma DecodeString_truncated: "DecodeString [3, 0x61] = (Inl ErrUnexpectedEOF, [])"
  by (simp add: DecodeString_def DecodeAndSaveULEB128_def ReadFull_def)

lemma DecodeDouble_truncated: "DecodeDouble [1, 2, 3] = (Inl ErrUnexpectedEOF, [])"
  by (simp add: DecodeDouble_def ReadFull_def)

lemma DecodeRaw_truncated: "DecodeRaw [0x80] = (Inl ErrEOF, [])"
  by (simp add: DecodeRaw_def DecodeAndSaveULEB128_def ReadFull_def)

subsection \<open>Bits of the length prefix\<close>

lemma low7_mask: "(0x7F :: 'a::len word) = mask 7" by (simp add: mask_eq_exp_minus_1)

lemma bit_0x80_int: "bit (0x80 :: int) k \<longleftrightarrow> k = 7"
  using bit_exp_iff [where ?'a = int, of 7 k] by simp

lemma low7_byte: "ucast ((ucast (n AND 0x7F :: 32 word) :: byte) AND 0x7F) = (n AND 0x7F)"
  unfolding low7_mask by (rule bit_word_eqI) (auto simp add: bit_simps)

lemma low7_byte_cont: "ucast (((ucast (n AND 0x7F :: 32 word) :: byte) OR 0x80) AND 0x7F) = (n AND 0x7F)"
  unfolding low7_mask by (rule bit_word_eqI) (auto simp add: bit_simps bit_0x80_int)

lemma low7_no_cont: "(ucast (n AND 0x7F :: 32 word) :: byte) AND 0x80 = 0"
  unfolding low7_mask by (rule bit_word_eqI) (auto simp add: bit_simps bit_0x80_int)

lemma cont_set: "((b :: byte) OR 0x80) AND 0x80 \<noteq> 0"
proof -
  have "bit (((b :: byte) OR 0x80) AND 0x80) 7" by (simp add: bit_simps bit_0x80_int)
  then show ?thesis by auto
qed

lemma split7: "(n AND 0x7F) OR push_bit 7 (drop_bit 7 n) = (n :: 32 word)"
proof (rule bit_word_eqI)
  fix k assume "k < LENGTH(32)"
  show "bit ((n AND 0x7F) OR push_bit 7 (drop_bit 7 n)) k = bit n k"
  proof (cases "k < 7")
    case True then show ?thesis unfolding low7_mask by (simp add: bit_simps)
  next
    case False
    then have "7 + (k - 7) = k" by simp
    with False \<open>k < LENGTH(32)\<close> show ?thesis unfolding low7_mask by (simp add: bit_simps)
  qed
qed

lemma low7_all: "drop_bit 7 (n :: 32 word) = 0 \<Longrightarrow> n AND 0x7F = n"
  unfolding low7_mask by (simp add: take_bit_eq_mask [symmetric] take_bit_eq_self_iff_drop_bit_eq_0)

lemma unat_low7a: "unat (n AND 0x7F :: 32 word) = unat n mod 128"
  unfolding low7_mask by (simp add: take_bit_eq_mask [symmetric] take_bit_eq_mod unat_mod)

lemma unat_byte_less: "unat (b :: byte) < 256"
  using unsigned_less [of b, where ?'a = nat] by simp

lemma unat_low7b: "unat (ucast (b :: byte) :: 32 word) = unat b"
  using unat_byte_less [of b] by (simp add: unsigned_ucast_eq take_bit_eq_mod)

lemma unat_low7: "unat ((ucast (n AND 0x7F :: 32 word) :: byte) AND 0x7F) = unat n mod 128"
  using low7_byte [of n] unat_low7b [of "(ucast (n AND 0x7F :: 32 word) :: byte) AND 0x7F"]
  by (simp add: unat_low7a)

lemma unat_low7_cont: "unat (((ucast (n AND 0x7F :: 32 word) :: byte) OR 0x80) AND 0x7F) = unat n mod 128"
  using low7_byte_cont [of n] unat_low7b [of "((ucast (n AND 0x7F :: 32 word) :: byte) OR 0x80) AND 0x7F"]
  by (simp add: unat_low7a)

lemma unat_drop7: "unat (drop_bit 7 (n :: 32 word)) = unat n div 128"
  by (simp add: drop_bit_eq_div unat_div)

lemma Encode_nonempty: "EncodeULEB128 n \<noteq> []"
  by (subst EncodeULEB128.simps) (simp add: Let_def)

lemma Encode_wellformed: "uleb_wellformed (EncodeULEB128 n)"
proof (induction n rule: EncodeULEB128.induct)
  case (1 n)
  show ?case
  proof (cases "drop_bit 7 n = 0")
    case True
    then show ?thesis by (subst EncodeULEB128.simps) (simp add: Let_def low7_no_cont)
  next
    case False
    obtain c cs where cs: "EncodeULEB128 (drop_bit 7 n) = c # cs"
      using Encode_nonempty [of "drop_bit 7 n"] by (cases "EncodeULEB128 (drop_bit 7 n)") auto
    from False 1 have "uleb_wellformed (EncodeULEB128 (drop_bit 7 n))" by simp
    with False cs show ?thesis
      by (subst EncodeULEB128.simps) (simp add: Let_def cont_set)
  qed
qed

lemma Encode_value: "uleb_value (EncodeULEB128 n) = unat n"
proof (induction n rule: EncodeULEB128.induct)
  case (1 n)
  show ?case
  proof (cases "drop_bit 7 n = 0")
    case True
    then have "unat n div 128 = 0" using unat_drop7 [of n] by simp
    with True show ?thesis by (subst EncodeULEB128.simps) (simp add: Let_def unat_low7)
  next
    case False
    with 1 have "uleb_value (EncodeULEB128 (drop_bit 7 n)) = unat n div 128"
      by (simp add: unat_drop7)
    with False show ?thesis
      by (subst EncodeULEB128.simps) (simp add: Let_def unat_low7_cont)
  qed
qed

lemma wellformed_value_bound: "uleb_value bs < 128 ^ length bs"
proof (induction bs)
  case Nil
  then show ?case by simp
next
  case (Cons b bs)
  have "unat (b AND 0x7F) < 128"
  proof -
    have "b AND 0x7F \<le> 0x7F" by (rule word_and_le1)
    then have "unat (b AND 0x7F) \<le> unat (0x7F :: byte)" by (simp only: word_le_nat_alt)
    then show ?thesis by simp
  qed
  with Cons show ?case by simp
qed

lemma Encode_length_lower:
  "n \<noteq> 0 \<Longrightarrow> 128 ^ (length (EncodeULEB128 n) - 1) \<le> unat n"
proof (induction n rule: EncodeULEB128.induct)
  case (1 n)
  show ?case
  proof (cases "drop_bit 7 n = 0")
    case True
    have "unat n \<noteq> 0" using "1.prems" by (simp add: unat_eq_0)
    with True show ?thesis by (subst EncodeULEB128.simps) (simp add: Let_def)
  next
    case False
    let ?m = "drop_bit 7 n"
    have len: "length (EncodeULEB128 n) = Suc (length (EncodeULEB128 ?m))"
      using False by (subst EncodeULEB128.simps) (simp add: Let_def)
    have pos: "length (EncodeULEB128 ?m) \<noteq> 0" using Encode_nonempty [of ?m] by simp
    from False 1 have "128 ^ (length (EncodeULEB128 ?m) - 1) \<le> unat n div 128"
      by (simp add: unat_drop7)
    then have "128 * 128 ^ (length (EncodeULEB128 ?m) - 1) \<le> 128 * (unat n div 128)"
      by simp
    also have "\<dots> \<le> unat n" by simp
    finally have "128 * 128 ^ (length (EncodeULEB128 ?m) - 1) \<le> unat n" .
    moreover have "(128::nat) * 128 ^ (length (EncodeULEB128 ?m) - 1) = 128 ^ length (EncodeULEB128 ?m)"
      using pos by (cases "length (EncodeULEB128 ?m)") simp_all
    ultimately show ?thesis by (simp add: len)
  qed
qed

lemma Encode_zero: "EncodeULEB128 0 = [0]"
  by (subst EncodeULEB128.simps) simp

lemma Encode_shortest:
  assumes "uleb_wellformed bs" and "uleb_value bs = unat n"
  shows "length (EncodeULEB128 n) \<le> length bs"
proof (cases "n = 0")
  case True
  from assms(1) have "bs \<noteq> []" by auto
  then have "1 \<le> length bs" by (cases bs) simp_all
  with True show ?thesis by (simp add: Encode_zero)
next
  case False
  show ?thesis
  proof (rule ccontr)
    assume "\<not> length (EncodeULEB128 n) \<le> length bs"
    then have "length bs \<le> length (EncodeULEB128 n) - 1" by simp
    then have "(128::nat) ^ length bs \<le> 128 ^ (length (EncodeULEB128 n) - 1)"
      by (simp add: power_increasing)
    also have "\<dots> \<le> unat n" using False by (rule Encode_length_lower)
    finally have "128 ^ length bs \<le> uleb_value bs" using assms(2) by simp
    with wellformed_value_bound [of bs] show False by simp
  qed
qed

lemma uleb_loop_Encode:
  "uleb_loop acc sh saved (EncodeULEB128 n @ r)
     = (Inr (acc OR push_bit sh n, saved @ EncodeULEB128 n), r)"
proof (induction n arbitrary: acc sh saved rule: EncodeULEB128.induct)
  case (1 n)
  let ?b = "ucast (n AND 0x7F) :: byte"
  show ?case
  proof (cases "drop_bit 7 n = 0")
    case True
    then have enc: "EncodeULEB128 n = [?b]" by (subst EncodeULEB128.simps) (simp add: Let_def)
    have "ucast (?b AND 0x7F) = n AND 0x7F" by (rule low7_byte)
    also have "\<dots> = n" by (rule low7_all [OF True])
    finally have val: "ucast (?b AND 0x7F) = n" .
    show ?thesis by (simp add: enc Let_def low7_no_cont val)
  next
    case False
    let ?m = "drop_bit 7 n"
    have enc: "EncodeULEB128 n = (?b OR 0x80) # EncodeULEB128 ?m"
      using False by (subst EncodeULEB128.simps) (simp add: Let_def)
    have IH: "uleb_loop acc' sh' saved' (EncodeULEB128 ?m @ r)
        = (Inr (acc' OR push_bit sh' ?m, saved' @ EncodeULEB128 ?m), r)" for acc' sh' saved'
      using 1 [OF refl refl False] .
    have join: "(acc OR push_bit sh (n AND 0x7F)) OR push_bit (sh + 7) ?m = acc OR push_bit sh n"
    proof -
      have "push_bit sh (n AND 0x7F) OR push_bit (sh + 7) ?m
          = push_bit sh ((n AND 0x7F) OR push_bit 7 ?m)"
        by (simp add: push_bit_or push_bit_push_bit add.commute)
      then show ?thesis by (simp add: split7 or.assoc)
    qed
    have "uleb_loop acc sh saved (EncodeULEB128 n @ r)
        = uleb_loop acc sh saved ((?b OR 0x80) # (EncodeULEB128 ?m @ r))"
      by (simp only: enc append_Cons)
    also have "\<dots> = uleb_loop (acc OR push_bit sh (n AND 0x7F)) (sh + 7) (saved @ [?b OR 0x80])
        (EncodeULEB128 ?m @ r)"
      by (simp only: uleb_loop.simps Let_def low7_byte_cont cont_set if_False)
    also have "\<dots> = (Inr ((acc OR push_bit sh (n AND 0x7F)) OR push_bit (sh + 7) ?m,
        (saved @ [?b OR 0x80]) @ EncodeULEB128 ?m), r)"
      by (rule IH)
    also have "\<dots> = (Inr (acc OR push_bit sh n, saved @ EncodeULEB128 n), r)"
      by (simp only: join enc append_assoc append_Cons append_Nil)
    finally show ?thesis .
  qed
qed

lemma Decode_Encode:
  "DecodeAndSaveULEB128 (EncodeULEB128 n @ r) = (Inr (n, EncodeULEB128 n), r)"
  by (simp add: DecodeAndSaveULEB128_def uleb_loop_Encode)

lemma Encode_examples:
  "EncodeULEB128 0 = [0x00]" "EncodeULEB128 127 = [0x7F]" "EncodeULEB128 128 = [0x80, 0x01]"
  "EncodeULEB128 16384 = [0x80, 0x80, 0x01]"
  "EncodeULEB128 0xFFFFFFFF = [0xFF, 0xFF, 0xFF, 0xFF, 0x0F]"
  by (simp_all add: EncodeULEB128.simps Let_def drop_bit_eq_div)

text \<open>
  C7. The encoder modelled from section 4.1 produces, for every 32-bit \<open>n\<close>, a well-formed
  unsigned-LEB128 sequence of value \<open>n\<close> that is minimal: no well-formed sequence of the
  same value is shorter. It maps 0 to [0x00], 127 to [0x7F], 128 to [0x80, 0x01] and 16384
  to [0x80, 0x80, 0x01]. Decoding the encoding of any \<open>n\<close>, the maximum 0xFFFFFFFF
  included, gives \<open>n\<close> back, with the bytes consumed and the rest of the stream untouched.
\<close>

theorem EncodeULEB128_minimal:
  "uleb_wellformed (EncodeULEB128 n)
   \<and> uleb_value (EncodeULEB128 n) = unat n
   \<and> (uleb_wellformed bs \<and> uleb_value bs = unat n \<longrightarrow> length (EncodeULEB128 n) \<le> length bs)
   \<and> EncodeULEB128 0 = [0x00]
   \<and> EncodeULEB128 127 = [0x7F]
   \<and> EncodeULEB128 128 = [0x80, 0x01]
   \<and> EncodeULEB128 16384 = [0x80, 0x80, 0x01]
   \<and> EncodeULEB128 0xFFFFFFFF = [0xFF, 0xFF, 0xFF, 0xFF, 0x0F]
   \<and> DecodeAndSaveULEB128 (EncodeULEB128 n @ r) = (Inr (n, EncodeULEB128 n), r)
   \<and> DecodeAndSaveULEB128 [0xFF, 0xFF, 0xFF, 0xFF, 0x0F]
       = (Inr (0xFFFFFFFF, [0xFF, 0xFF, 0xFF, 0xFF, 0x0F]), [])"
proof -
  have "DecodeAndSaveULEB128 (EncodeULEB128 0xFFFFFFFF @ [])
      = (Inr (0xFFFFFFFF, EncodeULEB128 0xFFFFFFFF), [])"
    by (rule Decode_Encode)
  then have "DecodeAndSaveULEB128 [0xFF, 0xFF, 0xFF, 0xFF, 0x0F]
      = (Inr (0xFFFFFFFF, [0xFF, 0xFF, 0xFF, 0xFF, 0x0F]), [])"
    by (simp add: Encode_examples)
  then show ?thesis
    using Encode_wellformed [of n] Encode_value [of n] Encode_shortest [of bs n]
      Decode_Encode [of n r]
    by (simp add: Encode_examples)
qed

theorem EncodeULEB128_minimal_witness:
  "uleb_wellformed [0x80, 0x81, 0x00] \<and> uleb_value [0x80, 0x81, 0x00] = unat (128 :: 32 word)
   \<and> length (EncodeULEB128 128) \<le> length [0x80, 0x81, 0x00 :: byte]
   \<and> length (EncodeULEB128 128) = 2"
  using EncodeULEB128_minimal [of 128 "[0x80, 0x81, 0x00]"]
  by simp
subsection \<open>The decoding loop of the arrays\<close>

lemma decode_elements_seq:
  "i \<le> index \<Longrightarrow>
   decode_elements dec index i elems r
     = with_prefix elems (decode_seq dec (unat index - unat i) r)"
proof (induction dec index i elems r rule: decode_elements.induct)
  case (1 dec index i elems r)
  show ?case
  proof (cases "i < index")
    case False
    with "1.prems" have "i = index" by simp
    then show ?thesis by (subst decode_elements.simps) (simp add: with_prefix_def)
  next
    case True
    then have le: "i + 1 \<le> index" by (rule inc_le)
    have suc: "unat (i + 1) = Suc (unat i)" using True by (rule byte_Suc)
    have "unat i < unat index" using True by (simp add: word_less_nat_alt)
    then have n: "unat index - unat i = Suc (unat index - unat (i + 1))"
      by (simp add: suc)
    show ?thesis
    proof (cases "dec r")
      case (Pair res r')
      show ?thesis
      proof (cases res)
        case (Inl e)
        with Pair True show ?thesis
          by (subst decode_elements.simps) (simp add: n with_prefix_def)
      next
        case (Inr v)
        have "decode_elements dec index (i + 1) (elems @ [v]) r'
            = with_prefix (elems @ [v]) (decode_seq dec (unat index - unat (i + 1)) r')"
          using "1.IH" [OF True Pair [symmetric] Inr le] .
        with Pair Inr True show ?thesis
          by (subst decode_elements.simps)
             (simp add: n with_prefix_def split: prod.splits sum.splits)
      qed
    qed
  qed
qed

lemma decode_array_seq:
  "decode_array dec (c # r) =
     (case decode_seq dec (unat c) r of
        (Inl e, r') \<Rightarrow> (Inl e, r')
      | (Inr vs, r') \<Rightarrow> (Inr \<lparr>elements = vs\<rparr>, r'))"
  by (simp add: decode_array_def ReadFull_def decode_elements_seq with_prefix_def
      split: prod.splits sum.splits)

lemma decode_array_Nil: "decode_array dec [] = (Inl ErrEOF, [])"
  by (simp add: decode_array_def ReadFull_def)

subsection \<open>What a decoder consumes is what the value keeps\<close>

lemma ReadFull_Inr:
  assumes "ReadFull r n = (Inr data, r')"
  shows "data @ r' = r" and "length data = n"
  using assms by (auto simp add: ReadFull_def split: if_splits)

lemma ReadFull_append: "ReadFull (data @ r) (length data) = (Inr data, r)"
  by (cases data) (simp_all add: ReadFull_def)

lemma uleb_loop_consumed:
  "uleb_loop acc sh saved r = (Inr (v, saved'), r') \<Longrightarrow> saved' @ r' = saved @ r"
proof (induction r arbitrary: acc sh saved)
  case Nil
  then show ?case by simp
next
  case (Cons b r)
  show ?case
  proof (cases "b AND 0x80 = 0")
    case True
    with Cons.prems show ?thesis by (simp add: Let_def)
  next
    case False
    with Cons.prems have
      "uleb_loop (acc OR push_bit sh (ucast (b AND 0x7F))) (sh + 7) (saved @ [b]) r
         = (Inr (v, saved'), r')"
      by (simp add: Let_def)
    from Cons.IH [OF this] show ?thesis by simp
  qed
qed

lemma DecodeAndSaveULEB128_consumed:
  "DecodeAndSaveULEB128 r = (Inr (v, saved), r') \<Longrightarrow> saved @ r' = r"
  using uleb_loop_consumed [of 0 0 "[]" r v saved r'] by (simp add: DecodeAndSaveULEB128_def)

lemma DecodeBoolean_raw:
  "DecodeBoolean r = (Inr x, r') \<Longrightarrow> RawValue x @ r' = r"
  by (cases r) (auto simp add: DecodeBoolean_def ReadFull_def split: if_splits)

lemma DecodeDouble_raw:
  "DecodeDouble r = (Inr x, r') \<Longrightarrow> RawValue x @ r' = r"
  by (auto simp add: DecodeDouble_def split: prod.splits sum.splits dest: ReadFull_Inr(1))

lemma DecodeString_raw:
  "DecodeString r = (Inr x, r') \<Longrightarrow> RawValue x @ r' = r"
  by (auto simp add: DecodeString_def split: prod.splits sum.splits
      dest!: ReadFull_Inr(1) DecodeAndSaveULEB128_consumed)

lemma DecodeRaw_raw:
  "DecodeRaw r = (Inr x, r') \<Longrightarrow> RawValue x @ r' = r"
  by (auto simp add: DecodeRaw_def split: prod.splits sum.splits
      dest!: ReadFull_Inr(1) DecodeAndSaveULEB128_consumed)

lemma decode_seq_raw:
  assumes dec: "\<And>r x r'. dec r = (Inr x, r') \<Longrightarrow> RawValue x @ r' = r"
  shows "decode_seq dec n r = (Inr xs, r') \<Longrightarrow> concat (map RawValue xs) @ r' = r \<and> length xs = n"
proof (induction n arbitrary: r xs)
  case 0
  then show ?case by simp
next
  case (Suc n)
  from Suc.prems obtain v r1 vs where
    d: "dec r = (Inr v, r1)" and s: "decode_seq dec n r1 = (Inr vs, r')" and xs: "xs = v # vs"
    by (auto split: prod.splits sum.splits)
  from Suc.IH [OF s] dec [OF d] xs show ?case by auto
qed

lemma unat_uint8: "n \<le> 255 \<Longrightarrow> unat (uint8 n) = n"
  by (simp add: uint8_def unat_of_nat)

lemma uint8_unat: "uint8 (unat (c :: byte)) = c"
  by (simp add: uint8_def)

lemma GetRaw_loop_concat:
  "length elems \<le> 255 \<Longrightarrow> i \<le> uint8 (length elems) \<Longrightarrow>
   GetRaw_loop elems i data = data @ concat (map RawValue (drop (unat i) elems))"
proof (induction elems i data rule: GetRaw_loop.induct)
  case (1 elems i data)
  have n: "unat (uint8 (length elems)) = length elems" using "1.prems"(1) by (rule unat_uint8)
  show ?case
  proof (cases "i < uint8 (length elems)")
    case False
    with "1.prems"(2) have "i = uint8 (length elems)" by simp
    then show ?thesis by (subst GetRaw_loop.simps) (simp add: n)
  next
    case True
    then have le: "i + 1 \<le> uint8 (length elems)" by (rule inc_le)
    have suc: "unat (i + 1) = Suc (unat i)" using True by (rule byte_Suc)
    have lt: "unat i < length elems" using True by (simp add: word_less_nat_alt n)
    have "GetRaw_loop elems (i + 1) (data @ RawValue (elems ! unat i))
        = (data @ RawValue (elems ! unat i)) @ concat (map RawValue (drop (unat (i + 1)) elems))"
      using "1.IH" [OF True "1.prems"(1) le] .
    with True lt show ?thesis
      by (subst GetRaw_loop.simps) (simp add: suc Cons_nth_drop_Suc [symmetric])
  qed
qed

lemma array_GetRaw_concat:
  "length (elements a) \<le> 255 \<Longrightarrow>
   array_GetRaw a = uint8 (length (elements a)) # concat (map RawValue (elements a))"
  by (simp add: array_GetRaw_def GetRaw_loop_concat)

lemma unat_byte_le: "unat (c :: byte) \<le> 255"
  using unat_byte_less [of c] by simp

lemma decode_array_raw:
  assumes dec: "\<And>r x r'. dec r = (Inr x, r') \<Longrightarrow> RawValue x @ r' = r"
    and ok: "decode_array dec r = (Inr a, r')"
  shows "array_GetRaw a @ r' = r"
proof (cases r)
  case Nil
  with ok show ?thesis by (simp add: decode_array_Nil)
next
  case (Cons c rest)
  with ok obtain vs where s: "decode_seq dec (unat c) rest = (Inr vs, r')" and a: "a = \<lparr>elements = vs\<rparr>"
    by (auto simp add: decode_array_seq split: prod.splits sum.splits)
  from decode_seq_raw [of dec, OF dec s]
  have c: "concat (map RawValue vs) @ r' = rest" and l: "length vs = unat c" by simp_all
  have "length vs \<le> 255" using l unat_byte_le [of c] by simp
  then show ?thesis using c l by (simp add: a array_GetRaw_concat Cons uint8_unat)
qed

subsection \<open>Decoding what was built\<close>

lemma string_bytes_roundtrip: "string_of_bytes (bytes_of_string s) = s"
  by (simp add: string_of_bytes_def bytes_of_string_def unat_of_nat map_idI)

lemma length_bytes_of_string: "length (bytes_of_string s) = length s"
  by (simp add: bytes_of_string_def)

lemma Decode_Build_Boolean:
  "DecodeBoolean (RawValue (BuildBoolean v) @ r) = (Inr (BuildBoolean v), r)"
  by (simp add: DecodeBoolean_def BuildBoolean_def ReadFull_def BoolFalse_def BoolTrue_def)

lemma unat_length_prefix: "n < 2 ^ 32 \<Longrightarrow> unat (word_of_nat n :: 32 word) = n"
  by (simp add: unat_of_nat)

lemma Decode_Build_String:
  assumes "length s < 2 ^ 32"
  shows "DecodeString (RawValue (BuildString s) @ r) = (Inr (BuildString s), r)"
proof -
  let ?bytes = "bytes_of_string s"
  let ?n = "word_of_nat (length ?bytes) :: 32 word"
  have n: "unat ?n = length ?bytes"
    using assms by (simp add: unat_length_prefix length_bytes_of_string)
  have "DecodeAndSaveULEB128 (EncodeULEB128 ?n @ (?bytes @ r)) = (Inr (?n, EncodeULEB128 ?n), ?bytes @ r)"
    by (rule Decode_Encode)
  moreover have "ReadFull (?bytes @ r) (unat ?n) = (Inr ?bytes, r)"
    by (simp only: n ReadFull_append)
  ultimately show ?thesis
    by (simp add: DecodeString_def BuildString_def Let_def string_bytes_roundtrip)
qed

lemma Decode_Build_Raw:
  assumes "length v < 2 ^ 32"
  shows "DecodeRaw (RawValue (BuildRaw v) @ r) = (Inr (BuildRaw v), r)"
proof -
  let ?n = "word_of_nat (length v) :: 32 word"
  have n: "unat ?n = length v"
    using assms by (simp add: unat_length_prefix)
  have "DecodeAndSaveULEB128 (EncodeULEB128 ?n @ (v @ r)) = (Inr (?n, EncodeULEB128 ?n), v @ r)"
    by (rule Decode_Encode)
  moreover have "ReadFull (v @ r) (unat ?n) = (Inr v, r)"
    by (simp only: n ReadFull_append)
  ultimately show ?thesis
    by (simp add: DecodeRaw_def BuildRaw_def)
qed

lemma BytesToFloat64_Float64ToBytes: "BytesToFloat64 (Float64ToBytes v) = v"
proof (rule bit_word_eqI)
  fix n assume "n < LENGTH(64)"
  then have n: "n < 64" by simp
  have readd: "k \<le> n \<Longrightarrow> k + (n - k) = n" for k by simp
  consider "n < 8" | "8 \<le> n" "n < 16" | "16 \<le> n" "n < 24" | "24 \<le> n" "n < 32"
    | "32 \<le> n" "n < 40" | "40 \<le> n" "n < 48" | "48 \<le> n" "n < 56" | "56 \<le> n" "n < 64"
    using n by linarith
  then show "bit (BytesToFloat64 (Float64ToBytes v)) n = bit v n"
    by cases (auto simp add: BytesToFloat64_def Float64ToBytes_def bit_simps readd)
qed

lemma length_Float64ToBytes: "length (Float64ToBytes v) = 8"
  by (simp add: Float64ToBytes_def)

lemma Decode_Build_Double:
  "DecodeDouble (RawValue (BuildDouble v) @ r) = (Inr (BuildDouble v), r)"
proof -
  have "ReadFull (Float64ToBytes v @ r) (length (Float64ToBytes v)) = (Inr (Float64ToBytes v), r)"
    by (rule ReadFull_append)
  then have "ReadFull (Float64ToBytes v @ r) 8 = (Inr (Float64ToBytes v), r)"
    by (simp only: length_Float64ToBytes)
  then show ?thesis
    by (simp add: DecodeDouble_def BuildDouble_def BytesToFloat64_Float64ToBytes)
qed

lemma decode_seq_concat:
  assumes "\<And>x r. x \<in> set xs \<Longrightarrow> dec (RawValue x @ r) = (Inr x, r)"
  shows "decode_seq dec (length xs) (concat (map RawValue xs) @ r) = (Inr xs, r)"
  using assms by (induction xs) simp_all

lemma build_array_small: "length xs \<le> 255 \<Longrightarrow> build_array xs = \<lparr>elements = xs\<rparr>"
  by (simp add: build_array_def unat_uint8)

lemma decode_build_array:
  assumes len: "length xs \<le> 255"
    and dec: "\<And>x r. x \<in> set xs \<Longrightarrow> dec (RawValue x @ r) = (Inr x, r)"
  shows "decode_array dec (array_GetRaw (build_array xs) @ r) = (Inr \<lparr>elements = xs\<rparr>, r)"
proof -
  have n: "unat (uint8 (length xs)) = length xs" using len by (rule unat_uint8)
  have b: "build_array xs = \<lparr>elements = xs\<rparr>" using len by (rule build_array_small)
  have "array_GetRaw (build_array xs) = uint8 (length xs) # concat (map RawValue xs)"
    using len by (simp add: b array_GetRaw_concat)
  then show ?thesis
    using decode_seq_concat [of xs dec r, OF dec]
    by (simp add: decode_array_seq n)
qed
subsection \<open>Round trips\<close>

lemma overflow32: "(4294967296 :: 32 word) = 0"
  by simp

text \<open>
  C3, within the bounds of the wire format. Decoding the wire bytes of a built value gives
  the value back and leaves the rest of the stream: for every boolean and every double;
  for every string and raw payload shorter than \<open>2 ^ 32\<close> bytes, the range of the
  length prefix; and for every array of at most 255 built elements (strings below
  \<open>2 ^ 32\<close> bytes). In the other direction, for each of the seven variants: whenever
  decoding a stream succeeds, the wire bytes of the decoded value followed by the unread
  rest of the stream are the stream, byte for byte.
\<close>

theorem roundtrip_within_bounds:
  "DecodeBoolean (ValueBoolean_GetRaw (BuildBoolean b) @ r)
     = (Inr \<lparr>Value = b, RawValue = ValueBoolean_GetRaw (BuildBoolean b)\<rparr>, r)
   \<and> DecodeDouble (ValueDouble_GetRaw (BuildDouble d) @ r)
     = (Inr \<lparr>Value = d, RawValue = ValueDouble_GetRaw (BuildDouble d)\<rparr>, r)
   \<and> (length s < 2 ^ 32 \<longrightarrow>
        DecodeString (ValueString_GetRaw (BuildString s) @ r)
          = (Inr \<lparr>Value = s, RawValue = ValueString_GetRaw (BuildString s)\<rparr>, r))
   \<and> (length w < 2 ^ 32 \<longrightarrow>
        DecodeRaw (ValueRaw_GetRaw (BuildRaw w) @ r)
          = (Inr \<lparr>Value = w, RawValue = ValueRaw_GetRaw (BuildRaw w)\<rparr>, r))
   \<and> (length bs \<le> 255 \<longrightarrow>
        DecodeBooleanArray (ValueBooleanArray_GetRaw (BuildBooleanArray (map BuildBoolean bs)) @ r)
          = (Inr \<lparr>elements = map BuildBoolean bs\<rparr>, r)
        \<and> map Value (map BuildBoolean bs) = bs)
   \<and> (length ds \<le> 255 \<longrightarrow>
        DecodeDoubleArray (ValueDoubleArray_GetRaw (BuildDoubleArray (map BuildDouble ds)) @ r)
          = (Inr \<lparr>elements = map BuildDouble ds\<rparr>, r)
        \<and> map Value (map BuildDouble ds) = ds)
   \<and> (length ss \<le> 255 \<and> (\<forall>s \<in> set ss. length s < 2 ^ 32) \<longrightarrow>
        DecodeStringArray (ValueStringArray_GetRaw (BuildStringArray (map BuildString ss)) @ r)
          = (Inr \<lparr>elements = map BuildString ss\<rparr>, r)
        \<and> map Value (map BuildString ss) = ss)
   \<and> (DecodeBoolean i = (Inr xb, i') \<longrightarrow> ValueBoolean_GetRaw xb @ i' = i)
   \<and> (DecodeDouble i = (Inr xd, i') \<longrightarrow> ValueDouble_GetRaw xd @ i' = i)
   \<and> (DecodeString i = (Inr xs, i') \<longrightarrow> ValueString_GetRaw xs @ i' = i)
   \<and> (DecodeRaw i = (Inr xw, i') \<longrightarrow> ValueRaw_GetRaw xw @ i' = i)
   \<and> (DecodeBooleanArray i = (Inr ab, i') \<longrightarrow> ValueBooleanArray_GetRaw ab @ i' = i)
   \<and> (DecodeDoubleArray i = (Inr ad, i') \<longrightarrow> ValueDoubleArray_GetRaw ad @ i' = i)
   \<and> (DecodeStringArray i = (Inr as, i') \<longrightarrow> ValueStringArray_GetRaw as @ i' = i)"
proof -
  have A1: "DecodeBoolean (ValueBoolean_GetRaw (BuildBoolean b) @ r)
     = (Inr \<lparr>Value = b, RawValue = ValueBoolean_GetRaw (BuildBoolean b)\<rparr>, r)"
    using Decode_Build_Boolean [of b r] by (simp add: ValueBoolean_GetRaw_def BuildBoolean_def)
  have A2: "DecodeDouble (ValueDouble_GetRaw (BuildDouble d) @ r)
     = (Inr \<lparr>Value = d, RawValue = ValueDouble_GetRaw (BuildDouble d)\<rparr>, r)"
    using Decode_Build_Double [of d r] by (simp add: ValueDouble_GetRaw_def BuildDouble_def)
  have A3: "length s < 2 ^ 32 \<longrightarrow>
        DecodeString (ValueString_GetRaw (BuildString s) @ r)
          = (Inr \<lparr>Value = s, RawValue = ValueString_GetRaw (BuildString s)\<rparr>, r)"
    using Decode_Build_String [of s r] by (simp add: ValueString_GetRaw_def BuildString_def Let_def)
  have A4: "length w < 2 ^ 32 \<longrightarrow>
        DecodeRaw (ValueRaw_GetRaw (BuildRaw w) @ r)
          = (Inr \<lparr>Value = w, RawValue = ValueRaw_GetRaw (BuildRaw w)\<rparr>, r)"
    using Decode_Build_Raw [of w r] by (simp add: ValueRaw_GetRaw_def BuildRaw_def)
  have A5: "length bs \<le> 255 \<longrightarrow>
        DecodeBooleanArray (ValueBooleanArray_GetRaw (BuildBooleanArray (map BuildBoolean bs)) @ r)
          = (Inr \<lparr>elements = map BuildBoolean bs\<rparr>, r)
        \<and> map Value (map BuildBoolean bs) = bs"
  proof
    assume "length bs \<le> 255"
    then have len: "length (map BuildBoolean bs) \<le> 255" by simp
    have dec: "DecodeBoolean (RawValue x @ q) = (Inr x, q)" if "x \<in> set (map BuildBoolean bs)" for x q
      using that Decode_Build_Boolean by auto
    have v: "map Value (map BuildBoolean bs) = bs"
      by (simp add: BuildBoolean_def comp_def)
    from decode_build_array [where xs = "map BuildBoolean bs" and dec = DecodeBoolean and r = r, OF len dec] v
    show "DecodeBooleanArray (ValueBooleanArray_GetRaw (BuildBooleanArray (map BuildBoolean bs)) @ r)
          = (Inr \<lparr>elements = map BuildBoolean bs\<rparr>, r)
        \<and> map Value (map BuildBoolean bs) = bs"
      by (simp add: DecodeBooleanArray_def ValueBooleanArray_GetRaw_def BuildBooleanArray_def)
  qed
  have A6: "length ds \<le> 255 \<longrightarrow>
        DecodeDoubleArray (ValueDoubleArray_GetRaw (BuildDoubleArray (map BuildDouble ds)) @ r)
          = (Inr \<lparr>elements = map BuildDouble ds\<rparr>, r)
        \<and> map Value (map BuildDouble ds) = ds"
  proof
    assume "length ds \<le> 255"
    then have len: "length (map BuildDouble ds) \<le> 255" by simp
    have dec: "DecodeDouble (RawValue x @ q) = (Inr x, q)" if "x \<in> set (map BuildDouble ds)" for x q
      using that Decode_Build_Double by auto
    have v: "map Value (map BuildDouble ds) = ds"
      by (simp add: BuildDouble_def comp_def)
    from decode_build_array [where xs = "map BuildDouble ds" and dec = DecodeDouble and r = r, OF len dec] v
    show "DecodeDoubleArray (ValueDoubleArray_GetRaw (BuildDoubleArray (map BuildDouble ds)) @ r)
          = (Inr \<lparr>elements = map BuildDouble ds\<rparr>, r)
        \<and> map Value (map BuildDouble ds) = ds"
      by (simp add: DecodeDoubleArray_def ValueDoubleArray_GetRaw_def BuildDoubleArray_def)
  qed
  have A7: "length ss \<le> 255 \<and> (\<forall>s \<in> set ss. length s < 2 ^ 32) \<longrightarrow>
        DecodeStringArray (ValueStringArray_GetRaw (BuildStringArray (map BuildString ss)) @ r)
          = (Inr \<lparr>elements = map BuildString ss\<rparr>, r)
        \<and> map Value (map BuildString ss) = ss"
  proof
    assume a: "length ss \<le> 255 \<and> (\<forall>s \<in> set ss. length s < 2 ^ 32)"
    then have len: "length (map BuildString ss) \<le> 255" by simp
    have dec: "DecodeString (RawValue x @ q) = (Inr x, q)" if "x \<in> set (map BuildString ss)" for x q
      using that a Decode_Build_String by auto
    have v: "map Value (map BuildString ss) = ss"
      by (simp add: BuildString_def comp_def Let_def)
    from decode_build_array [where xs = "map BuildString ss" and dec = DecodeString and r = r, OF len dec] v
    show "DecodeStringArray (ValueStringArray_GetRaw (BuildStringArray (map BuildString ss)) @ r)
          = (Inr \<lparr>elements = map BuildString ss\<rparr>, r)
        \<and> map Value (map BuildString ss) = ss"
      by (simp add: DecodeStringArray_def ValueStringArray_GetRaw_def BuildStringArray_def)
  qed
  have B1: "DecodeBoolean i = (Inr xb, i') \<longrightarrow> ValueBoolean_GetRaw xb @ i' = i"
    by (simp add: ValueBoolean_GetRaw_def DecodeBoolean_raw)
  have B2: "DecodeDouble i = (Inr xd, i') \<longrightarrow> ValueDouble_GetRaw xd @ i' = i"
    by (simp add: ValueDouble_GetRaw_def DecodeDouble_raw)
  have B3: "DecodeString i = (Inr xs, i') \<longrightarrow> ValueString_GetRaw xs @ i' = i"
    by (simp add: ValueString_GetRaw_def DecodeString_raw)
  have B4: "DecodeRaw i = (Inr xw, i') \<longrightarrow> ValueRaw_GetRaw xw @ i' = i"
    by (simp add: ValueRaw_GetRaw_def DecodeRaw_raw)
  have B5: "DecodeBooleanArray i = (Inr ab, i') \<longrightarrow> ValueBooleanArray_GetRaw ab @ i' = i"
    unfolding DecodeBooleanArray_def ValueBooleanArray_GetRaw_def
    using decode_array_raw [of DecodeBoolean i ab i', OF DecodeBoolean_raw] by blast
  have B6: "DecodeDoubleArray i = (Inr ad, i') \<longrightarrow> ValueDoubleArray_GetRaw ad @ i' = i"
    unfolding DecodeDoubleArray_def ValueDoubleArray_GetRaw_def
    using decode_array_raw [of DecodeDouble i ad i', OF DecodeDouble_raw] by blast
  have B7: "DecodeStringArray i = (Inr as, i') \<longrightarrow> ValueStringArray_GetRaw as @ i' = i"
    unfolding DecodeStringArray_def ValueStringArray_GetRaw_def
    using decode_array_raw [of DecodeString i as i', OF DecodeString_raw] by blast
  show ?thesis
    by (intro conjI A1 A2 A3 A4 A5 A6 A7 B1 B2 B3 B4 B5 B6 B7)
qed

text \<open>
  The bounds are satisfiable, and the second direction holds on streams that no
  \<^verbatim>\<open>Build\<close> would produce, such as a length prefix in a non-minimal encoding.
\<close>

theorem roundtrip_within_bounds_witness:
  "length ''abc'' < 2 ^ 32
   \<and> DecodeString (ValueString_GetRaw (BuildString ''abc'') @ [0x07])
       = (Inr \<lparr>Value = ''abc'', RawValue = [0x03, 0x61, 0x62, 0x63]\<rparr>, [0x07])
   \<and> length [0x01, 0x02 :: byte] < 2 ^ 32
   \<and> DecodeRaw (ValueRaw_GetRaw (BuildRaw [0x01, 0x02]) @ [0x07])
       = (Inr \<lparr>Value = [0x01, 0x02], RawValue = [0x02, 0x01, 0x02]\<rparr>, [0x07])
   \<and> length [True, False] \<le> 255
   \<and> DecodeBooleanArray
        (ValueBooleanArray_GetRaw (BuildBooleanArray (map BuildBoolean [True, False])) @ [0x07])
       = (Inr \<lparr>elements = [BuildBoolean True, BuildBoolean False]\<rparr>, [0x07])
   \<and> length [0x3FF0000000000000 :: 64 word] \<le> 255
   \<and> DecodeDoubleArray
        (ValueDoubleArray_GetRaw (BuildDoubleArray (map BuildDouble [0x3FF0000000000000])) @ [0x07])
       = (Inr \<lparr>elements = [BuildDouble 0x3FF0000000000000]\<rparr>, [0x07])
   \<and> length [''ab'', ''''] \<le> 255 \<and> length ''ab'' < 2 ^ 32 \<and> length '''' < 2 ^ 32
   \<and> DecodeStringArray
        (ValueStringArray_GetRaw (BuildStringArray (map BuildString [''ab'', ''''])) @ [0x07])
       = (Inr \<lparr>elements = [BuildString ''ab'', BuildString '''']\<rparr>, [0x07])
   \<and> DecodeBoolean [0x01, 0x07] = (Inr \<lparr>Value = True, RawValue = [0x01]\<rparr>, [0x07])
   \<and> ValueBoolean_GetRaw \<lparr>Value = True, RawValue = [0x01]\<rparr> @ [0x07] = [0x01, 0x07]
   \<and> DecodeDouble [0x3F, 0xF0, 0, 0, 0, 0, 0, 0, 0x07]
       = (Inr \<lparr>Value = 0x3FF0000000000000, RawValue = [0x3F, 0xF0, 0, 0, 0, 0, 0, 0]\<rparr>, [0x07])
   \<and> ValueDouble_GetRaw \<lparr>Value = 0x3FF0000000000000, RawValue = [0x3F, 0xF0, 0, 0, 0, 0, 0, 0]\<rparr>
         @ [0x07] = [0x3F, 0xF0, 0, 0, 0, 0, 0, 0, 0x07]
   \<and> DecodeString [0x81, 0x00, 0x61, 0x07]
       = (Inr \<lparr>Value = ''a'', RawValue = [0x81, 0x00, 0x61]\<rparr>, [0x07])
   \<and> ValueString_GetRaw \<lparr>Value = ''a'', RawValue = [0x81, 0x00, 0x61]\<rparr> @ [0x07]
       = [0x81, 0x00, 0x61, 0x07]
   \<and> DecodeRaw [0x81, 0x00, 0x61, 0x07]
       = (Inr \<lparr>Value = [0x61], RawValue = [0x81, 0x00, 0x61]\<rparr>, [0x07])
   \<and> ValueRaw_GetRaw \<lparr>Value = [0x61], RawValue = [0x81, 0x00, 0x61]\<rparr> @ [0x07]
       = [0x81, 0x00, 0x61, 0x07]
   \<and> DecodeBooleanArray [0x02, 0x01, 0x00, 0x07]
       = (Inr \<lparr>elements = [\<lparr>Value = True, RawValue = [0x01]\<rparr>,
                            \<lparr>Value = False, RawValue = [0x00]\<rparr>]\<rparr>, [0x07])
   \<and> ValueBooleanArray_GetRaw
         \<lparr>elements = [\<lparr>Value = True, RawValue = [0x01]\<rparr>, \<lparr>Value = False, RawValue = [0x00]\<rparr>]\<rparr>
         @ [0x07] = [0x02, 0x01, 0x00, 0x07]
   \<and> DecodeDoubleArray [0x01, 0x3F, 0xF0, 0, 0, 0, 0, 0, 0, 0x07]
       = (Inr \<lparr>elements = [\<lparr>Value = 0x3FF0000000000000,
                             RawValue = [0x3F, 0xF0, 0, 0, 0, 0, 0, 0]\<rparr>]\<rparr>, [0x07])
   \<and> ValueDoubleArray_GetRaw
         \<lparr>elements = [\<lparr>Value = 0x3FF0000000000000, RawValue = [0x3F, 0xF0, 0, 0, 0, 0, 0, 0]\<rparr>]\<rparr>
         @ [0x07] = [0x01, 0x3F, 0xF0, 0, 0, 0, 0, 0, 0, 0x07]
   \<and> DecodeStringArray [0x02, 0x81, 0x00, 0x61, 0x00, 0x07]
       = (Inr \<lparr>elements = [\<lparr>Value = ''a'', RawValue = [0x81, 0x00, 0x61]\<rparr>,
                            \<lparr>Value = [], RawValue = [0x00]\<rparr>]\<rparr>, [0x07])
   \<and> ValueStringArray_GetRaw
         \<lparr>elements = [\<lparr>Value = ''a'', RawValue = [0x81, 0x00, 0x61]\<rparr>,
                      \<lparr>Value = [], RawValue = [0x00]\<rparr>]\<rparr>
         @ [0x07] = [0x02, 0x81, 0x00, 0x61, 0x00, 0x07]"
proof -
  note A = roundtrip_within_bounds [where s = "''abc''" and w = "[0x01, 0x02]"
      and bs = "[True, False]" and ds = "[0x3FF0000000000000]" and ss = "[''ab'', '''']"
      and r = "[0x07]"]
  note B = roundtrip_within_bounds [where i' = "[0x07]"]
  have e1: "DecodeBoolean [0x01, 0x07] = (Inr \<lparr>Value = True, RawValue = [0x01]\<rparr>, [0x07])"
    by (simp add: DecodeBoolean_def ReadFull_def BoolTrue_def BoolFalse_def)
  have e2: "DecodeDouble [0x3F, 0xF0, 0, 0, 0, 0, 0, 0, 0x07]
       = (Inr \<lparr>Value = 0x3FF0000000000000, RawValue = [0x3F, 0xF0, 0, 0, 0, 0, 0, 0]\<rparr>, [0x07])"
    by (simp add: DecodeDouble_def ReadFull_def BytesToFloat64_def)
  have e3: "DecodeString [0x81, 0x00, 0x61, 0x07]
       = (Inr \<lparr>Value = ''a'', RawValue = [0x81, 0x00, 0x61]\<rparr>, [0x07])"
    by (simp add: DecodeString_def DecodeAndSaveULEB128_def ReadFull_def string_of_bytes_def
        char_of_def bit_simps)
  have e4: "DecodeRaw [0x81, 0x00, 0x61, 0x07]
       = (Inr \<lparr>Value = [0x61], RawValue = [0x81, 0x00, 0x61]\<rparr>, [0x07])"
    by (simp add: DecodeRaw_def DecodeAndSaveULEB128_def ReadFull_def)
  have e5: "DecodeBooleanArray [0x02, 0x01, 0x00, 0x07]
       = (Inr \<lparr>elements = [\<lparr>Value = True, RawValue = [0x01]\<rparr>,
                            \<lparr>Value = False, RawValue = [0x00]\<rparr>]\<rparr>, [0x07])"
    by (simp add: DecodeBooleanArray_def decode_array_def decode_elements.simps DecodeBoolean_def
        ReadFull_def BoolTrue_def BoolFalse_def)
  have e6: "DecodeDoubleArray [0x01, 0x3F, 0xF0, 0, 0, 0, 0, 0, 0, 0x07]
       = (Inr \<lparr>elements = [\<lparr>Value = 0x3FF0000000000000,
                             RawValue = [0x3F, 0xF0, 0, 0, 0, 0, 0, 0]\<rparr>]\<rparr>, [0x07])"
    by (simp add: DecodeDoubleArray_def decode_array_def decode_elements.simps DecodeDouble_def
        ReadFull_def BytesToFloat64_def)
  have e7: "DecodeStringArray [0x02, 0x81, 0x00, 0x61, 0x00, 0x07]
       = (Inr \<lparr>elements = [\<lparr>Value = ''a'', RawValue = [0x81, 0x00, 0x61]\<rparr>,
                            \<lparr>Value = [], RawValue = [0x00]\<rparr>]\<rparr>, [0x07])"
    by (simp add: DecodeStringArray_def decode_array_def decode_elements.simps DecodeString_def
        DecodeAndSaveULEB128_def ReadFull_def string_of_bytes_def char_of_def bit_simps)
  have raw3: "ValueString_GetRaw (BuildString ''abc'') = [0x03, 0x61, 0x62, 0x63]"
    by (simp add: ValueString_GetRaw_def BuildString_def bytes_of_string_def EncodeULEB128.simps)
  have raw4: "ValueRaw_GetRaw (BuildRaw [0x01, 0x02]) = [0x02, 0x01, 0x02]"
    by (simp add: ValueRaw_GetRaw_def BuildRaw_def EncodeULEB128.simps)
  show ?thesis
    using A
      B [where i = "[0x01, 0x07]" and xb = "\<lparr>Value = True, RawValue = [0x01]\<rparr>"]
      B [where i = "[0x3F, 0xF0, 0, 0, 0, 0, 0, 0, 0x07]"
          and xd = "\<lparr>Value = 0x3FF0000000000000, RawValue = [0x3F, 0xF0, 0, 0, 0, 0, 0, 0]\<rparr>"]
      B [where i = "[0x81, 0x00, 0x61, 0x07]"
          and xs = "\<lparr>Value = ''a'', RawValue = [0x81, 0x00, 0x61]\<rparr>"
          and xw = "\<lparr>Value = [0x61], RawValue = [0x81, 0x00, 0x61]\<rparr>"]
      B [where i = "[0x02, 0x01, 0x00, 0x07]"
          and ab = "\<lparr>elements = [\<lparr>Value = True, RawValue = [0x01]\<rparr>,
                            \<lparr>Value = False, RawValue = [0x00]\<rparr>]\<rparr>"]
      B [where i = "[0x01, 0x3F, 0xF0, 0, 0, 0, 0, 0, 0, 0x07]"
          and ad = "\<lparr>elements = [\<lparr>Value = 0x3FF0000000000000,
                             RawValue = [0x3F, 0xF0, 0, 0, 0, 0, 0, 0]\<rparr>]\<rparr>"]
      B [where i = "[0x02, 0x81, 0x00, 0x61, 0x00, 0x07]"
          and as = "\<lparr>elements = [\<lparr>Value = ''a'', RawValue = [0x81, 0x00, 0x61]\<rparr>,
                            \<lparr>Value = [], RawValue = [0x00]\<rparr>]\<rparr>"]
    by (simp add: e1 e2 e3 e4 e5 e6 e7 raw3 raw4)
qed

text \<open>
  Beyond the bounds the round trip loses data. \<^verbatim>\<open>BuildBooleanArray\<close> keeps 255 of 256
  values, so 255 come back; \<^verbatim>\<open>BuildString\<close> on \<open>2 ^ 32\<close> bytes writes the length
  prefix 0, so the empty string comes back.
\<close>

theorem roundtrip_fails_beyond_bounds:
  "DecodeBooleanArray
      (ValueBooleanArray_GetRaw (BuildBooleanArray (map BuildBoolean (replicate 256 True))))
     = (Inr \<lparr>elements = replicate 255 (BuildBoolean True)\<rparr>, [])
   \<and> map Value (replicate 255 (BuildBoolean True)) \<noteq> replicate 256 True
   \<and> DecodeString (ValueString_GetRaw (BuildString (replicate 4294967296 CHR ''a'')))
     = (Inr \<lparr>Value = [], RawValue = [0]\<rparr>, bytes_of_string (replicate 4294967296 CHR ''a''))
   \<and> [] \<noteq> replicate 4294967296 CHR ''a''"
proof -
  let ?xs = "replicate 255 (BuildBoolean True)"
  have "decode_array DecodeBoolean (array_GetRaw (build_array ?xs) @ []) = (Inr \<lparr>elements = ?xs\<rparr>, [])"
    by (rule decode_build_array) (simp_all add: Decode_Build_Boolean)
  moreover have "build_array (replicate 256 (BuildBoolean True)) = build_array ?xs"
    by (simp add: build_array_def uint8_def)
  ultimately have arr: "DecodeBooleanArray
      (ValueBooleanArray_GetRaw (BuildBooleanArray (map BuildBoolean (replicate 256 True))))
     = (Inr \<lparr>elements = ?xs\<rparr>, [])"
    by (simp add: DecodeBooleanArray_def ValueBooleanArray_GetRaw_def BuildBooleanArray_def)
  have str: "DecodeString (ValueString_GetRaw (BuildString (replicate 4294967296 CHR ''a'')))
     = (Inr \<lparr>Value = [], RawValue = [0]\<rparr>, bytes_of_string (replicate 4294967296 CHR ''a''))"
    by (simp add: ValueString_GetRaw_def BuildString_def length_bytes_of_string Encode_zero
        overflow32 DecodeString_def DecodeAndSaveULEB128_def ReadFull_def string_of_bytes_def)
  from arr str show ?thesis by simp
qed

subsection \<open>Decoding an array through the dispatcher\<close>

text \<open>
  C9, with the re-encoding as the code has it. Each array decoder reads one byte as the
  element count and then decodes that many scalars of its type in order, an element
  failure ending the decode with that error: on a stream with a first byte it agrees with
  \<open>decode_seq\<close> for the element decoder. The bytes 0x10, 0x02, 0x01, 0x00 decode through
  \<^verbatim>\<open>DecodeEntryValueAndType\<close> to the tag 0x10 and a BooleanArray holding true and false.
  \<^verbatim>\<open>GetRaw\<close> of that array gives the three bytes after the tag; the tag returned by
  the dispatcher followed by them is the four bytes of the input.
\<close>

theorem array_decode_dispatch:
  "DecodeBooleanArray (c # r) =
     (case decode_seq DecodeBoolean (unat c) r of
        (Inl e, r') \<Rightarrow> (Inl e, r')
      | (Inr vs, r') \<Rightarrow> (Inr \<lparr>elements = vs\<rparr>, r'))
   \<and> DecodeDoubleArray (c # r) =
     (case decode_seq DecodeDouble (unat c) r of
        (Inl e, r') \<Rightarrow> (Inl e, r')
      | (Inr vs, r') \<Rightarrow> (Inr \<lparr>elements = vs\<rparr>, r'))
   \<and> DecodeStringArray (c # r) =
     (case decode_seq DecodeString (unat c) r of
        (Inl e, r') \<Rightarrow> (Inl e, r')
      | (Inr vs, r') \<Rightarrow> (Inr \<lparr>elements = vs\<rparr>, r'))
   \<and> DecodeBooleanArray [0x02, 0x01, 0x05] = (Inl ErrEntryDataInvalid, [])
   \<and> DecodeBooleanArray [0x02, 0x01] = (Inl ErrEOF, [])
   \<and> DecodeEntryValueAndType [0x10, 0x02, 0x01, 0x00]
       = ((Some (P_ValueBooleanArray
            \<lparr>elements = [\<lparr>Value = True, RawValue = [0x01]\<rparr>,
                         \<lparr>Value = False, RawValue = [0x00]\<rparr>]\<rparr>),
           0x10, None), [])
   \<and> GetRaw (P_ValueBooleanArray
            \<lparr>elements = [\<lparr>Value = True, RawValue = [0x01]\<rparr>,
                         \<lparr>Value = False, RawValue = [0x00]\<rparr>]\<rparr>)
       = [0x02, 0x01, 0x00]
   \<and> 0x10 # GetRaw (P_ValueBooleanArray
            \<lparr>elements = [\<lparr>Value = True, RawValue = [0x01]\<rparr>,
                         \<lparr>Value = False, RawValue = [0x00]\<rparr>]\<rparr>)
       = [0x10, 0x02, 0x01, 0x00]"
proof -
  have ex: "DecodeEntryValueAndType [0x10, 0x02, 0x01, 0x00]
       = ((Some (P_ValueBooleanArray
            \<lparr>elements = [\<lparr>Value = True, RawValue = [0x01]\<rparr>,
                         \<lparr>Value = False, RawValue = [0x00]\<rparr>]\<rparr>),
           0x10, None), [])"
    by (simp add: DecodeEntryValueAndType_def Read1_def DecodeEntryValue_def EntryTypeBoolean_def
      EntryTypeDouble_def EntryTypeString_def EntryTypeRawData_def EntryTypeBooleanArr_def
      as_EntryValue_def DecodeBooleanArray_def decode_array_def decode_elements.simps
      DecodeBoolean_def ReadFull_def BoolFalse_def BoolTrue_def)
  have raw: "GetRaw (P_ValueBooleanArray
            \<lparr>elements = [\<lparr>Value = True, RawValue = [0x01]\<rparr>,
                         \<lparr>Value = False, RawValue = [0x00]\<rparr>]\<rparr>)
       = [0x02, 0x01, 0x00]"
    by (simp add: ValueBooleanArray_GetRaw_def array_GetRaw_def uint8_def GetRaw_loop.simps)
  have bad: "DecodeBooleanArray [0x02, 0x01, 0x05] = (Inl ErrEntryDataInvalid, [])"
    by (simp add: DecodeBooleanArray_def decode_array_def decode_elements.simps
      DecodeBoolean_def ReadFull_def BoolFalse_def BoolTrue_def)
  have short: "DecodeBooleanArray [0x02, 0x01] = (Inl ErrEOF, [])"
    by (simp add: DecodeBooleanArray_def decode_array_def decode_elements.simps
      DecodeBoolean_def ReadFull_def BoolFalse_def BoolTrue_def)
  have tagged: "0x10 # GetRaw (P_ValueBooleanArray
            \<lparr>elements = [\<lparr>Value = True, RawValue = [0x01]\<rparr>,
                         \<lparr>Value = False, RawValue = [0x00]\<rparr>]\<rparr>)
       = [0x10, 0x02, 0x01, 0x00]"
    by (simp only: raw)
  have b: "DecodeBooleanArray (c # r) =
     (case decode_seq DecodeBoolean (unat c) r of
        (Inl e, r') \<Rightarrow> (Inl e, r')
      | (Inr vs, r') \<Rightarrow> (Inr \<lparr>elements = vs\<rparr>, r'))"
    by (simp only: DecodeBooleanArray_def decode_array_seq)
  have d: "DecodeDoubleArray (c # r) =
     (case decode_seq DecodeDouble (unat c) r of
        (Inl e, r') \<Rightarrow> (Inl e, r')
      | (Inr vs, r') \<Rightarrow> (Inr \<lparr>elements = vs\<rparr>, r'))"
    by (simp only: DecodeDoubleArray_def decode_array_seq)
  have s: "DecodeStringArray (c # r) =
     (case decode_seq DecodeString (unat c) r of
        (Inl e, r') \<Rightarrow> (Inl e, r')
      | (Inr vs, r') \<Rightarrow> (Inr \<lparr>elements = vs\<rparr>, r'))"
    by (simp only: DecodeStringArray_def decode_array_seq)
  show ?thesis
    by (intro conjI b d s bad short ex raw tagged)
qed

text \<open>
  No \<^verbatim>\<open>GetRaw\<close> emits a type tag: re-encoding the decoded array does not give back
  the four bytes.
\<close>

theorem GetRaw_omits_type_tag:
  "DecodeEntryValueAndType [0x10, 0x02, 0x01, 0x00]
       = ((Some (P_ValueBooleanArray
            \<lparr>elements = [\<lparr>Value = True, RawValue = [0x01]\<rparr>,
                         \<lparr>Value = False, RawValue = [0x00]\<rparr>]\<rparr>),
           0x10, None), [])
   \<and> GetRaw (P_ValueBooleanArray
            \<lparr>elements = [\<lparr>Value = True, RawValue = [0x01]\<rparr>,
                         \<lparr>Value = False, RawValue = [0x00]\<rparr>]\<rparr>)
       \<noteq> [0x10, 0x02, 0x01, 0x00]"
  by (simp add: DecodeEntryValueAndType_def Read1_def DecodeEntryValue_def EntryTypeBoolean_def
      EntryTypeDouble_def EntryTypeString_def EntryTypeRawData_def EntryTypeBooleanArr_def
      as_EntryValue_def DecodeBooleanArray_def decode_array_def decode_elements.simps
      DecodeBoolean_def ReadFull_def BoolFalse_def BoolTrue_def
      ValueBooleanArray_GetRaw_def array_GetRaw_def uint8_def GetRaw_loop.simps)
subsection \<open>The capacity guard of Add\<close>

text \<open>
  C1. The guard of \<^verbatim>\<open>Add\<close> is \<^verbatim>\<open>len(array.elements) > 255\<close>. On an array that holds
  255 elements it lets the call through for each of the three variants: \<^verbatim>\<open>Add\<close> returns
  no error and the array holds 256 elements afterwards. The count byte of that array wraps:
  \<^verbatim>\<open>GetRaw\<close> emits the single byte 0 and \<^verbatim>\<open>Get(0)\<close> is out of bounds.
\<close>

theorem Add_at_255_succeeds:
  "ValueBooleanArray_Add \<lparr>elements = replicate 255 v\<rparr> (P_ValueBoolean w)
     = (None, \<lparr>elements = replicate 255 v @ [w]\<rparr>)
   \<and> ValueDoubleArray_Add \<lparr>elements = replicate 255 d\<rparr> (P_ValueDouble d')
     = (None, \<lparr>elements = replicate 255 d @ [d']\<rparr>)
   \<and> ValueStringArray_Add \<lparr>elements = replicate 255 s\<rparr> (P_ValueString s')
     = (None, \<lparr>elements = replicate 255 s @ [s']\<rparr>)
   \<and> length (replicate 255 v @ [w]) = 256
   \<and> ValueBooleanArray_GetRaw \<lparr>elements = replicate 255 v @ [w]\<rparr> = [0]
   \<and> ValueBooleanArray_Get \<lparr>elements = replicate 255 v @ [w]\<rparr> 0 = Inl ErrArrayIndexOutOfBounds"
  by (simp add: ValueBooleanArray_Add_def ValueDoubleArray_Add_def ValueStringArray_Add_def
      ValueBooleanArray_GetRaw_def array_GetRaw_def uint8_def ValueBooleanArray_Get_def
      GetRaw_loop.simps)

subsection \<open>Updates that leave the two fields out of step\<close>

text \<open>
  C2. \<^verbatim>\<open>MergeWithOverwrite\<close> skips the fields of the new value that are empty.
  \<^verbatim>\<open>UpdateValue(false)\<close> on a boolean holding true returns no error, replaces the wire
  bytes by 0x00 and leaves the logical value true, while 0x00 decodes to false; the same
  happens when the stream of \<^verbatim>\<open>UpdateRaw\<close> delivers 0x00. \<^verbatim>\<open>UpdateValue("")\<close> on a
  string holding "abc" returns no error, replaces the wire bytes by the single byte 0x00
  and leaves the logical value "abc", while that byte decodes to the empty string.
\<close>

theorem UpdateValue_empty_desynchronises:
  "ValueBoolean_UpdateValue (BuildBoolean True) False = (None, \<lparr>Value = True, RawValue = [0]\<rparr>)
   \<and> ValueBoolean_UpdateRaw (BuildBoolean True) [0] = ((None, \<lparr>Value = True, RawValue = [0]\<rparr>), [])
   \<and> DecodeBoolean [0] = (Inr \<lparr>Value = False, RawValue = [0]\<rparr>, [])
   \<and> ValueString_UpdateValue (BuildString ''abc'') [] = (None, \<lparr>Value = ''abc'', RawValue = [0]\<rparr>)
   \<and> DecodeString [0] = (Inr \<lparr>Value = [], RawValue = [0]\<rparr>, [])"
  by (simp add: ValueBoolean_UpdateValue_def ValueBoolean_UpdateRaw_def BuildBoolean_def
      MergeWithOverwrite_def reflect_ValueBoolean_def assign_ValueBoolean_def BoolTrue_def
      BoolFalse_def DecodeBoolean_def ReadFull_def ValueString_UpdateValue_def BuildString_def
      reflect_ValueString_def assign_ValueString_def bytes_of_string_def DecodeString_def
      DecodeAndSaveULEB128_def string_of_bytes_def EncodeULEB128.simps)

subsection \<open>A failed decode leaves the value alone\<close>

text \<open>
  C4. For each of the four scalar variants: when decoding from the reader fails with an
  error, \<^verbatim>\<open>UpdateRaw\<close> on that reader returns that error and the receiver is what it was
  before the call, logical value and wire bytes alike.
\<close>

theorem UpdateRaw_failure_atomic:
  "(DecodeBoolean r = (Inl e, r') \<longrightarrow> ValueBoolean_UpdateRaw b r = ((Some e, b), r'))
   \<and> (DecodeString r = (Inl e, r') \<longrightarrow> ValueString_UpdateRaw s r = ((Some e, s), r'))
   \<and> (DecodeDouble r = (Inl e, r') \<longrightarrow> ValueDouble_UpdateRaw d r = ((Some e, d), r'))
   \<and> (DecodeRaw r = (Inl e, r') \<longrightarrow> ValueRaw_UpdateRaw w r = ((Some e, w), r'))"
  by (simp add: ValueBoolean_UpdateRaw_def ValueString_UpdateRaw_def ValueDouble_UpdateRaw_def
      ValueRaw_UpdateRaw_def)

theorem UpdateRaw_failure_atomic_witness:
  "DecodeBoolean [] = (Inl ErrEOF, [])
   \<and> ValueBoolean_UpdateRaw (BuildBoolean True) [] = ((Some ErrEOF, BuildBoolean True), [])
   \<and> DecodeString [3, 0x61] = (Inl ErrUnexpectedEOF, [])
   \<and> ValueString_UpdateRaw (BuildString ''abc'') [3, 0x61]
       = ((Some ErrUnexpectedEOF, BuildString ''abc''), [])
   \<and> DecodeDouble [1, 2, 3] = (Inl ErrUnexpectedEOF, [])
   \<and> ValueDouble_UpdateRaw (BuildDouble 7) [1, 2, 3] = ((Some ErrUnexpectedEOF, BuildDouble 7), [])
   \<and> DecodeRaw [0x80] = (Inl ErrEOF, [])
   \<and> ValueRaw_UpdateRaw (BuildRaw [9]) [0x80] = ((Some ErrEOF, BuildRaw [9]), [])"
  using
    UpdateRaw_failure_atomic [of "[]" ErrEOF "[]" "BuildBoolean True" "BuildString ''abc''"
      "BuildDouble 7" "BuildRaw [9]"]
    UpdateRaw_failure_atomic [of "[3, 0x61]" ErrUnexpectedEOF "[]" "BuildBoolean True"
      "BuildString ''abc''" "BuildDouble 7" "BuildRaw [9]"]
    UpdateRaw_failure_atomic [of "[1, 2, 3]" ErrUnexpectedEOF "[]" "BuildBoolean True"
      "BuildString ''abc''" "BuildDouble 7" "BuildRaw [9]"]
    UpdateRaw_failure_atomic [of "[0x80]" ErrEOF "[]" "BuildBoolean True" "BuildString ''abc''"
      "BuildDouble 7" "BuildRaw [9]"]
    DecodeBoolean_Nil DecodeString_truncated DecodeDouble_truncated DecodeRaw_truncated
  by simp

subsection \<open>Type assertions of the arrays\<close>

text \<open>
  C6. For each of the three array variants: when the dynamic type of the value handed to
  \<^verbatim>\<open>Update\<close> or \<^verbatim>\<open>Add\<close> is not the pointer type of the array's elements, the call
  returns \<^verbatim>\<open>ErrEntryCastInvalid\<close> and the array is what it was before, whatever the
  index.
\<close>

theorem array_type_mismatch:
  "((\<forall>b. entry \<noteq> P_ValueBoolean b) \<longrightarrow>
      ValueBooleanArray_Update ba index entry = (Some ErrEntryCastInvalid, ba)
      \<and> ValueBooleanArray_Add ba entry = (Some ErrEntryCastInvalid, ba))
   \<and> ((\<forall>d. entry \<noteq> P_ValueDouble d) \<longrightarrow>
      ValueDoubleArray_Update da index entry = (Some ErrEntryCastInvalid, da)
      \<and> ValueDoubleArray_Add da entry = (Some ErrEntryCastInvalid, da))
   \<and> ((\<forall>s. entry \<noteq> P_ValueString s) \<longrightarrow>
      ValueStringArray_Update sa index entry = (Some ErrEntryCastInvalid, sa)
      \<and> ValueStringArray_Add sa entry = (Some ErrEntryCastInvalid, sa))"
  by (cases entry)
     (simp_all add: ValueBooleanArray_Update_def ValueBooleanArray_Add_def
        ValueDoubleArray_Update_def ValueDoubleArray_Add_def
        ValueStringArray_Update_def ValueStringArray_Add_def)

theorem array_type_mismatch_witness:
  "(\<forall>b. P_ValueDouble (BuildDouble 1) \<noteq> P_ValueBoolean b)
   \<and> ValueBooleanArray_Update \<lparr>elements = [BuildBoolean True]\<rparr> 0 (P_ValueDouble (BuildDouble 1))
       = (Some ErrEntryCastInvalid, \<lparr>elements = [BuildBoolean True]\<rparr>)
   \<and> ValueBooleanArray_Add \<lparr>elements = [BuildBoolean True]\<rparr> (P_ValueDouble (BuildDouble 1))
       = (Some ErrEntryCastInvalid, \<lparr>elements = [BuildBoolean True]\<rparr>)"
  using array_type_mismatch [of "P_ValueDouble (BuildDouble 1)"
      "\<lparr>elements = [BuildBoolean True]\<rparr>" 0]
  by simp

subsection \<open>Update of a DoubleArray\<close>

text \<open>
  C8. \<^verbatim>\<open>ValueDoubleArray.Update\<close> with a value of the matching variant never succeeds:
  when the index is in range the merge refuses its destination, a pointer to a pointer,
  with \<^verbatim>\<open>ErrNotSupported\<close>; otherwise the index is out of bounds. In both cases the array
  is what it was before, so the element at the index does not take the supplied value: an
  array holding 1.0 still holds 1.0 after \<^verbatim>\<open>Update(0, BuildDouble(2.0))\<close>. The same call
  on a BooleanArray, which passes the element and the dereferenced value, succeeds and
  replaces false by true.
\<close>

theorem DoubleArray_Update_never_succeeds:
  "ValueDoubleArray_Update array index (P_ValueDouble d) =
     (Some (if index \<ge> uint8 (length (elements array)) then ErrArrayIndexOutOfBounds
            else ErrNotSupported), array)
   \<and> ValueDoubleArray_Update \<lparr>elements = [BuildDouble 0x3FF0000000000000]\<rparr> 0
        (P_ValueDouble (BuildDouble 0x4000000000000000))
       = (Some ErrNotSupported, \<lparr>elements = [BuildDouble 0x3FF0000000000000]\<rparr>)
   \<and> ValueDoubleArray_Get \<lparr>elements = [BuildDouble 0x3FF0000000000000]\<rparr> 0
       = Inr (P_ValueDouble (BuildDouble 0x3FF0000000000000))
   \<and> ValueBooleanArray_Update \<lparr>elements = [BuildBoolean False]\<rparr> 0
        (P_ValueBoolean (BuildBoolean True))
       = (None, \<lparr>elements = [BuildBoolean True]\<rparr>)"
  by (simp add: ValueDoubleArray_Update_def MergeWithOverwrite_def Let_def
      assign_reflect_ValueDouble uint8_def ValueDoubleArray_Get_def
      ValueBooleanArray_Update_def reflect_ValueBoolean_def assign_ValueBoolean_def
      BuildBoolean_def BoolTrue_def BoolFalse_def)

subsection \<open>Type tags\<close>

text \<open>
  C10. \<^verbatim>\<open>DecodeEntryType\<close> returns whatever byte it reads as the type, with no error.
  \<^verbatim>\<open>DecodeEntryValue\<close> is where a tag is checked: a tag that is none of the seven tags
  of the dispatch is refused with \<^verbatim>\<open>ErrEntryNoSuchType\<close>, and nothing is read.
\<close>

theorem tag_validation:
  "DecodeEntryType (b # r) = ((b, None), r)
   \<and> (t \<notin> {0x00, 0x01, 0x02, 0x03, 0x10, 0x11, 0x12} \<longrightarrow>
        DecodeEntryValue r t = (Inl ErrEntryNoSuchType, r))"
  by (simp add: DecodeEntryType_def Read1_def DecodeEntryValue_def EntryTypeBoolean_def
      EntryTypeDouble_def EntryTypeString_def EntryTypeRawData_def EntryTypeBooleanArr_def
      EntryTypeDoubleArr_def EntryTypeStringArr_def)

theorem tag_validation_witness:
  "DecodeEntryType [0x42, 0x01] = ((0x42, None), [0x01])
   \<and> DecodeEntryType [0xFF] = ((0xFF, None), [])
   \<and> (0x42 :: byte) \<notin> {0x00, 0x01, 0x02, 0x03, 0x10, 0x11, 0x12}
   \<and> DecodeEntryValue [0x01] 0x42 = (Inl ErrEntryNoSuchType, [0x01])
   \<and> (0xFF :: byte) \<notin> {0x00, 0x01, 0x02, 0x03, 0x10, 0x11, 0x12}
   \<and> DecodeEntryValue [] 0xFF = (Inl ErrEntryNoSuchType, [])
   \<and> (0x20 :: byte) \<notin> {0x00, 0x01, 0x02, 0x03, 0x10, 0x11, 0x12}
   \<and> DecodeEntryValue [] 0x20 = (Inl ErrEntryNoSuchType, [])"
  using tag_validation [of "0x42" "[0x01]" "0x42"] tag_validation [of "0xFF" "[]" "0xFF"]
    tag_validation [of "0xFF" "[]" "0x20"]
  by simp

end
